theory Spec2Isabelle
  imports Complex_Main "HOL-Library.Word" "HOL-Library.Monad_Syntax"
begin

section \<open>JavaScript numbers\<close>

text \<open>
  The values that \<^verbatim>\<open>src/app/page.tsx\<close> computes with are JavaScript numbers. The
  samples of an AudioBuffer are 32-bit floats, read as doubles; the products
  \<^verbatim>\<open>sample * 0x8000\<close> and \<^verbatim>\<open>sample * 0x7FFF\<close> of a 24-bit significand with a 15- or
  16-bit integer are exact in a double, so a finite number is modelled by the real it
  denotes, and the three values that are not reals are constructors of their own.
  (A finite product that leaves the range of the doubles is not modelled: every product
  of this program is taken after clamping, or from a sample rate and a duration.)
\<close>

datatype number = NaN | NegInf | Fin real | PosInf

fun Math_min :: "number \<Rightarrow> number \<Rightarrow> number" where
  "Math_min NaN y = NaN"
| "Math_min x NaN = NaN"
| "Math_min NegInf y = NegInf"
| "Math_min x NegInf = NegInf"
| "Math_min PosInf y = y"
| "Math_min x PosInf = x"
| "Math_min (Fin x) (Fin y) = Fin (min x y)"

fun Math_max :: "number \<Rightarrow> number \<Rightarrow> number" where
  "Math_max NaN y = NaN"
| "Math_max x NaN = NaN"
| "Math_max PosInf y = PosInf"
| "Math_max x PosInf = PosInf"
| "Math_max NegInf y = y"
| "Math_max x NegInf = x"
| "Math_max (Fin x) (Fin y) = Fin (max x y)"

text \<open>The comparison \<^verbatim>\<open>a < b\<close>: false as soon as one side is NaN.\<close>

fun num_less :: "number \<Rightarrow> number \<Rightarrow> bool" where
  "num_less NaN y = False"
| "num_less x NaN = False"
| "num_less x NegInf = False"
| "num_less NegInf y = True"
| "num_less PosInf y = False"
| "num_less x PosInf = True"
| "num_less (Fin x) (Fin y) = (x < y)"

text \<open>The product \<^verbatim>\<open>a * b\<close>: zero times an infinity is NaN.\<close>

definition inf_times :: "bool \<Rightarrow> real \<Rightarrow> number" where
  "inf_times positive x =
     (if x = 0 then NaN else if (0 < x) = positive then PosInf else NegInf)"

fun num_times :: "number \<Rightarrow> number \<Rightarrow> number" where
  "num_times NaN y = NaN"
| "num_times x NaN = NaN"
| "num_times (Fin x) (Fin y) = Fin (x * y)"
| "num_times (Fin x) PosInf = inf_times True x"
| "num_times (Fin x) NegInf = inf_times False x"
| "num_times PosInf (Fin y) = inf_times True y"
| "num_times NegInf (Fin y) = inf_times False y"
| "num_times PosInf PosInf = PosInf"
| "num_times NegInf NegInf = PosInf"
| "num_times PosInf NegInf = NegInf"
| "num_times NegInf PosInf = NegInf"

text \<open>
  The integer conversions of ECMAScript and WebIDL: NaN and the infinities become 0, a
  finite number is truncated towards zero and then reduced modulo the width.
\<close>

definition js_trunc :: "real \<Rightarrow> int" where
  "js_trunc x = (if x < 0 then - \<lfloor>- x\<rfloor> else \<lfloor>x\<rfloor>)"

fun ToInt16 :: "number \<Rightarrow> 16 word" where
  "ToInt16 (Fin x) = word_of_int (js_trunc x)"
| "ToInt16 x = 0"

fun ToUint32 :: "number \<Rightarrow> 32 word" where
  "ToUint32 (Fin x) = word_of_int (js_trunc x)"
| "ToUint32 x = 0"

section \<open>ArrayBuffer and DataView\<close>

text \<open>
  An ArrayBuffer is its list of bytes. An exception of the platform is the result
  \<open>None\<close>, and a sequence of calls a \<open>do\<close> block of the option monad: the one handler
  of the program that catches them (in \<^verbatim>\<open>saveAudio\<close>) does not look at what it caught.
  \<^verbatim>\<open>new ArrayBuffer(n)\<close> throws a RangeError when \<open>n\<close> is more than the engine
  allocates, \<open>maxByteLength\<close>; a DataView setter throws a RangeError when the bytes it
  writes do not lie inside the buffer, and reduces the number it is given modulo the
  width of the field. The numbers that the program passes to the unsigned setters are
  lengths and rates, natural numbers here.
\<close>

type_synonym byte = "8 word"
type_synonym data_view = "byte list"

definition new_ArrayBuffer :: "nat \<Rightarrow> nat \<Rightarrow> data_view option" where
  "new_ArrayBuffer maxByteLength n =
     (if n \<le> maxByteLength then Some (replicate n 0) else None)"

definition store_bytes :: "data_view \<Rightarrow> nat \<Rightarrow> byte list \<Rightarrow> data_view option" where
  "store_bytes view byteOffset bs =
     (if byteOffset + length bs \<le> length view
      then Some (take byteOffset view @ bs @ drop (byteOffset + length bs) view)
      else None)"

definition bytes16 :: "16 word \<Rightarrow> bool \<Rightarrow> byte list" where
  "bytes16 w littleEndian =
     (let big = [ucast (drop_bit 8 w), ucast w] in if littleEndian then rev big else big)"

definition bytes32 :: "32 word \<Rightarrow> bool \<Rightarrow> byte list" where
  "bytes32 w littleEndian =
     (let big = [ucast (drop_bit 24 w), ucast (drop_bit 16 w), ucast (drop_bit 8 w), ucast w]
      in if littleEndian then rev big else big)"

definition setUint8 :: "data_view \<Rightarrow> nat \<Rightarrow> nat \<Rightarrow> data_view option" where
  "setUint8 view byteOffset v = store_bytes view byteOffset [of_nat v]"

definition setUint16 :: "data_view \<Rightarrow> nat \<Rightarrow> nat \<Rightarrow> bool \<Rightarrow> data_view option" where
  "setUint16 view byteOffset v littleEndian =
     store_bytes view byteOffset (bytes16 (of_nat v) littleEndian)"

definition setUint32 :: "data_view \<Rightarrow> nat \<Rightarrow> nat \<Rightarrow> bool \<Rightarrow> data_view option" where
  "setUint32 view byteOffset v littleEndian =
     store_bytes view byteOffset (bytes32 (of_nat v) littleEndian)"

definition setInt16 :: "data_view \<Rightarrow> nat \<Rightarrow> number \<Rightarrow> bool \<Rightarrow> data_view option" where
  "setInt16 view byteOffset v littleEndian =
     store_bytes view byteOffset (bytes16 (ToInt16 v) littleEndian)"

text \<open>Reading a header field back, little-endian.\<close>

definition getUint16 :: "data_view \<Rightarrow> nat \<Rightarrow> nat" where
  "getUint16 view byteOffset =
     unat (view ! byteOffset) + 256 * unat (view ! (byteOffset + 1))"

definition getUint32 :: "data_view \<Rightarrow> nat \<Rightarrow> nat" where
  "getUint32 view byteOffset =
     unat (view ! byteOffset) + 256 * unat (view ! (byteOffset + 1))
       + 65536 * unat (view ! (byteOffset + 2)) + 16777216 * unat (view ! (byteOffset + 3))"

definition getInt16 :: "data_view \<Rightarrow> nat \<Rightarrow> int" where
  "getInt16 view byteOffset =
     sint (word_of_nat (getUint16 view byteOffset) :: 16 word)"

section \<open>The serializer: audioBufferToCompressedAudio\<close>

text \<open>
  An AudioBuffer: \<^verbatim>\<open>length\<close> frames, \<^verbatim>\<open>numberOfChannels\<close> channels, a sample rate
  (a whole number of Hz, as the rates of audio hardware are), and one Float32Array per
  channel. \<^verbatim>\<open>getChannelData(c)\<close> throws for a channel the buffer does not have; an
  index outside a Float32Array reads \<^verbatim>\<open>undefined\<close>, which \<^verbatim>\<open>Math.min\<close> converts to
  NaN.
\<close>

record audio_buffer =
  buf_length :: nat
  numberOfChannels :: nat
  sampleRate :: nat
  channelData :: "number list list"

definition getChannelData :: "audio_buffer \<Rightarrow> nat \<Rightarrow> number list option" where
  "getChannelData buffer channel =
     (if channel < numberOfChannels buffer \<and> channel < length (channelData buffer)
      then Some (channelData buffer ! channel) else None)"

definition float32_at :: "number list \<Rightarrow> nat \<Rightarrow> number" where
  "float32_at array i = (if i < length array then array ! i else NaN)"

text \<open>The platform's own invariant of an AudioBuffer.\<close>

definition wf_buffer :: "audio_buffer \<Rightarrow> bool" where
  "wf_buffer buffer =
     (length (channelData buffer) = numberOfChannels buffer \<and>
      list_all (\<lambda>array. length array = buf_length buffer) (channelData buffer))"

text \<open>\<^verbatim>\<open>writeString\<close>: the loop over the characters of the string.\<close>

fun writeString :: "data_view \<Rightarrow> nat \<Rightarrow> string \<Rightarrow> data_view option" where
  "writeString view offset [] = Some view"
| "writeString view offset (c # cs) =
     (case setUint8 view offset (of_char c) of
        None \<Rightarrow> None
      | Some view' \<Rightarrow> writeString view' (offset + 1) cs)"

text \<open>
  The body of the two nested loops: the sample of frame \<open>i\<close> in \<open>channel\<close> is clamped,
  scaled and written at \<open>offset\<close>.
\<close>

definition scaled_sample :: "number \<Rightarrow> number" where
  "scaled_sample x =
     (let sample = Math_max (Fin (- 1)) (Math_min (Fin 1) x)
      in if num_less sample (Fin 0) then num_times sample (Fin 32768)
         else num_times sample (Fin 32767))"

function convertChannels ::
  "audio_buffer \<Rightarrow> nat \<Rightarrow> nat \<Rightarrow> data_view \<Rightarrow> nat \<Rightarrow> (data_view \<times> nat) option" where
  "convertChannels buffer i channel view offset =
     (if channel < numberOfChannels buffer then
        (case getChannelData buffer channel of
           None \<Rightarrow> None
         | Some array \<Rightarrow>
             (case setInt16 view offset (scaled_sample (float32_at array i)) True of
                None \<Rightarrow> None
              | Some view' \<Rightarrow> convertChannels buffer i (channel + 1) view' (offset + 2)))
      else Some (view, offset))"
  by pat_completeness auto
termination
  by (relation "measure (\<lambda>(buffer, i, channel, view, offset). numberOfChannels buffer - channel)")
    auto

function convertFrames ::
  "audio_buffer \<Rightarrow> nat \<Rightarrow> data_view \<Rightarrow> nat \<Rightarrow> (data_view \<times> nat) option" where
  "convertFrames buffer i view offset =
     (if i < buf_length buffer then
        (case convertChannels buffer i 0 view offset of
           None \<Rightarrow> None
         | Some (view', offset') \<Rightarrow> convertFrames buffer (i + 1) view' offset')
      else Some (view, offset))"
  by pat_completeness auto
termination
  by (relation "measure (\<lambda>(buffer, i, view, offset). buf_length buffer - i)") auto

definition audioBufferToCompressedAudio :: "nat \<Rightarrow> audio_buffer \<Rightarrow> data_view option" where
  "audioBufferToCompressedAudio maxByteLength buffer =
     (let len = buf_length buffer;
          channels = numberOfChannels buffer;
          rate = sampleRate buffer
      in do {
        view \<leftarrow> new_ArrayBuffer maxByteLength (44 + len * channels * 2);
        view \<leftarrow> writeString view 0 ''RIFF'';
        view \<leftarrow> setUint32 view 4 (36 + len * channels * 2) True;
        view \<leftarrow> writeString view 8 ''WAVE'';
        view \<leftarrow> writeString view 12 ''fmt '';
        view \<leftarrow> setUint32 view 16 16 True;
        view \<leftarrow> setUint16 view 20 1 True;
        view \<leftarrow> setUint16 view 22 channels True;
        view \<leftarrow> setUint32 view 24 rate True;
        view \<leftarrow> setUint32 view 28 (rate * channels * 2) True;
        view \<leftarrow> setUint16 view 32 (channels * 2) True;
        view \<leftarrow> setUint16 view 34 16 True;
        view \<leftarrow> writeString view 36 ''data'';
        view \<leftarrow> setUint32 view 40 (len * channels * 2) True;
        (view, offset) \<leftarrow> convertFrames buffer 0 view 44;
        Some view
      })"

text \<open>
  What the serializer is to produce, written from the layout of the container: the
  44 bytes of the header, then the frames in order, each frame its channels in order, each
  sample two bytes.
\<close>

definition char_codes :: "string \<Rightarrow> byte list" where
  "char_codes cs = map (\<lambda>c. of_nat (of_char c)) cs"

definition wav_header :: "nat \<Rightarrow> nat \<Rightarrow> nat \<Rightarrow> byte list" where
  "wav_header len channels rate =
     char_codes ''RIFF'' @ bytes32 (of_nat (36 + len * channels * 2)) True @
     char_codes ''WAVE'' @
     char_codes ''fmt '' @ bytes32 16 True @
     bytes16 1 True @ bytes16 (of_nat channels) True @
     bytes32 (of_nat rate) True @ bytes32 (of_nat (rate * channels * 2)) True @
     bytes16 (of_nat (channels * 2)) True @ bytes16 16 True @
     char_codes ''data'' @ bytes32 (of_nat (len * channels * 2)) True"

definition pcm16 :: "number \<Rightarrow> byte list" where
  "pcm16 x = bytes16 (ToInt16 (scaled_sample x)) True"

definition frame_bytes :: "audio_buffer \<Rightarrow> nat \<Rightarrow> nat \<Rightarrow> nat \<Rightarrow> byte list" where
  "frame_bytes buffer i lo hi =
     concat (map (\<lambda>channel. pcm16 (float32_at (channelData buffer ! channel) i)) [lo..<hi])"

definition pcm_data :: "audio_buffer \<Rightarrow> nat \<Rightarrow> nat \<Rightarrow> byte list" where
  "pcm_data buffer lo hi =
     concat (map (\<lambda>i. frame_bytes buffer i 0 (numberOfChannels buffer)) [lo..<hi])"

text \<open>
  The 16-bit value of a sample, in the words of the specification: the sample is clamped
  to [-1, 1], then scaled by 32768 if negative and by 32767 otherwise; the integer
  written is the scaled value without its fraction.
\<close>

definition quantize_spec :: "number \<Rightarrow> int" where
  "quantize_spec x =
     (case x of
        NaN \<Rightarrow> 0
      | NegInf \<Rightarrow> - 32768
      | PosInf \<Rightarrow> 32767
      | Fin r \<Rightarrow>
          (let clamped = max (- 1) (min 1 r)
           in js_trunc (if clamped < 0 then clamped * 32768 else clamped * 32767)))"

text \<open>A buffer under construction: the bytes written so far, then \<open>k\<close> zero bytes.\<close>

definition fresh :: "byte list \<Rightarrow> nat \<Rightarrow> data_view" where
  "fresh pre k = pre @ replicate k 0"

section \<open>The audio graph of the platform\<close>

text \<open>
  The nodes of the Web Audio API that the program creates, with the parameters it sets
  or reads. A context owns its nodes: a node is its index in the context's list, the
  destination is node 0, and a connection is a pair of nodes. Connecting two nodes that
  are connected already changes nothing; \<^verbatim>\<open>disconnect()\<close> removes every connection that
  leaves the node, and throws nothing. A node is created with the defaults of the API.
\<close>

datatype biquad_type = Lowpass | Lowshelf | Peaking | Highshelf

record biquad =
  filter_type :: biquad_type
  frequency :: real
  Q :: real
  gain :: real

record compressor =
  threshold :: real
  knee :: real
  ratio :: real
  attack :: real
  release :: real

datatype audio_node =
    Destination
  | MediaElementSource
  | BufferSource "audio_buffer option" bool
  | BiquadFilter biquad
  | Gain real
  | DynamicsCompressor compressor

record audio_graph =
  nodes :: "audio_node list"
  edges :: "(nat \<times> nat) list"

definition destination :: nat where
  "destination = 0"

definition create_node ::
  "audio_node \<Rightarrow> 'a audio_graph_scheme \<Rightarrow> nat \<times> 'a audio_graph_scheme" where
  "create_node n g = (length (nodes g), g\<lparr>nodes := nodes g @ [n]\<rparr>)"

definition update_node ::
  "nat \<Rightarrow> (audio_node \<Rightarrow> audio_node) \<Rightarrow> 'a audio_graph_scheme \<Rightarrow> 'a audio_graph_scheme" where
  "update_node i f g = g\<lparr>nodes := (nodes g)[i := f (nodes g ! i)]\<rparr>"

definition connect :: "nat \<Rightarrow> nat \<Rightarrow> 'a audio_graph_scheme \<Rightarrow> 'a audio_graph_scheme" where
  "connect a b g = (if (a, b) \<in> set (edges g) then g else g\<lparr>edges := edges g @ [(a, b)]\<rparr>)"

definition disconnect :: "nat \<Rightarrow> 'a audio_graph_scheme \<Rightarrow> 'a audio_graph_scheme" where
  "disconnect a g = g\<lparr>edges := filter (\<lambda>e. fst e \<noteq> a) (edges g)\<rparr>"

fun set_biquad :: "(biquad \<Rightarrow> biquad) \<Rightarrow> audio_node \<Rightarrow> audio_node" where
  "set_biquad f (BiquadFilter p) = BiquadFilter (f p)"
| "set_biquad f n = n"

fun set_gain :: "real \<Rightarrow> audio_node \<Rightarrow> audio_node" where
  "set_gain v (Gain g) = Gain v"
| "set_gain v n = n"

fun set_compressor :: "(compressor \<Rightarrow> compressor) \<Rightarrow> audio_node \<Rightarrow> audio_node" where
  "set_compressor f (DynamicsCompressor p) = DynamicsCompressor (f p)"
| "set_compressor f n = n"

fun set_buffer :: "audio_buffer \<Rightarrow> audio_node \<Rightarrow> audio_node" where
  "set_buffer b (BufferSource old started) = BufferSource (Some b) started"
| "set_buffer b n = n"

fun start_source :: "audio_node \<Rightarrow> audio_node" where
  "start_source (BufferSource b started) = BufferSource b True"
| "start_source n = n"

definition createBiquadFilter :: "'a audio_graph_scheme \<Rightarrow> nat \<times> 'a audio_graph_scheme" where
  "createBiquadFilter =
     create_node (BiquadFilter \<lparr>filter_type = Lowpass, frequency = 350, Q = 1, gain = 0\<rparr>)"

definition createGain :: "'a audio_graph_scheme \<Rightarrow> nat \<times> 'a audio_graph_scheme" where
  "createGain = create_node (Gain 1)"

definition createDynamicsCompressor ::
  "'a audio_graph_scheme \<Rightarrow> nat \<times> 'a audio_graph_scheme" where
  "createDynamicsCompressor =
     create_node (DynamicsCompressor
       \<lparr>threshold = - 24, knee = 30, ratio = 12, attack = 0.003, release = 0.25\<rparr>)"

definition createMediaElementSource ::
  "'a audio_graph_scheme \<Rightarrow> nat \<times> 'a audio_graph_scheme" where
  "createMediaElementSource = create_node MediaElementSource"

definition createBufferSource :: "'a audio_graph_scheme \<Rightarrow> nat \<times> 'a audio_graph_scheme" where
  "createBufferSource = create_node (BufferSource None False)"

text \<open>
  The live context has the sample rate and the channel count of its destination from the
  audio hardware, and is suspended or running. An offline context has the three
  dimensions it is constructed with.
\<close>

record audio_context = audio_graph +
  ctx_sampleRate :: nat
  channelCount :: nat
  suspended :: bool

record hardware =
  hw_sampleRate :: nat
  hw_channelCount :: nat
  hw_suspended :: bool

definition new_AudioContext :: "hardware \<Rightarrow> audio_context" where
  "new_AudioContext hw =
     \<lparr>nodes = [Destination], edges = [], ctx_sampleRate = hw_sampleRate hw,
      channelCount = hw_channelCount hw, suspended = hw_suspended hw\<rparr>"

record offline_context = audio_graph +
  oc_numberOfChannels :: nat
  oc_length :: nat
  oc_sampleRate :: nat

text \<open>
  \<^verbatim>\<open>new OfflineAudioContext(numberOfChannels, length, sampleRate)\<close>: the length is
  converted to an unsigned long; the constructor throws when a dimension is zero. (An
  engine also refuses the channel counts and rates it does not support; the program
  treats every refusal alike.)
\<close>

definition new_OfflineAudioContext :: "nat \<Rightarrow> number \<Rightarrow> nat \<Rightarrow> offline_context option" where
  "new_OfflineAudioContext channels len rate =
     (if channels = 0 \<or> unat (ToUint32 len) = 0 \<or> rate = 0 then None
      else Some \<lparr>nodes = [Destination], edges = [], oc_numberOfChannels = channels,
                  oc_length = unat (ToUint32 len), oc_sampleRate = rate\<rparr>)"

section \<open>The state of the component\<close>

record eq_settings =
  bass :: real
  mid :: real
  treble :: real

datatype eq_key = KBass | KMid | KTreble

text \<open>
  The AudioNodes of the program: six node handles and the context. The context is held
  by value, with its nodes and connections, since nothing but this record refers to it.
\<close>

record audio_nodes =
  source :: "nat option"
  bassFilter :: "nat option"
  midFilter :: "nat option"
  trebleFilter :: "nat option"
  masterGain :: "nat option"
  comp_node :: "nat option"
  audioContext :: "audio_context option"

text \<open>
  The hidden audio element: its source (an object URL, or none), whether it is paused,
  the duration the platform reports for the file (NaN before one is loaded) and the
  playback position.
\<close>

record audio_element =
  src :: "nat option"
  paused :: bool
  duration :: number
  currentTime :: real

record audio_file =
  file_name :: string
  file_duration :: number

datatype url_event = CreateObjectURL nat | RevokeObjectURL nat

text \<open>
  The state of \<^verbatim>\<open>AudioEqualizer\<close>: its five state variables and its refs, and two
  components of the platform: the next object URL that \<^verbatim>\<open>URL.createObjectURL\<close> hands out
  (every call gives a new one) and the log of the calls that created and revoked URLs.
\<close>

record app_state =
  isPlaying :: bool
  currentFile :: string
  eqSettings :: eq_settings
  bypass :: bool
  audioContextSuspended :: bool
  audioRef :: "audio_element option"
  objectUrlRef :: "nat option"
  audioNodesRef :: audio_nodes
  next_url :: nat
  url_log :: "url_event list"

definition no_nodes :: audio_nodes where
  "no_nodes = \<lparr>source = None, bassFilter = None, midFilter = None, trebleFilter = None,
     masterGain = None, comp_node = None, audioContext = None\<rparr>"

definition initial_state :: app_state where
  "initial_state =
     \<lparr>isPlaying = False, currentFile = [], eqSettings = \<lparr>bass = 0, mid = 0, treble = 0\<rparr>,
      bypass = False, audioContextSuspended = False,
      audioRef = Some \<lparr>src = None, paused = True, duration = NaN, currentTime = 0\<rparr>,
      objectUrlRef = None, audioNodesRef = no_nodes, next_url = 0, url_log = []\<rparr>"

definition createObjectURL :: "app_state \<Rightarrow> nat \<times> app_state" where
  "createObjectURL s =
     (next_url s,
      s\<lparr>next_url := next_url s + 1, url_log := url_log s @ [CreateObjectURL (next_url s)]\<rparr>)"

definition revokeObjectURL :: "nat \<Rightarrow> app_state \<Rightarrow> app_state" where
  "revokeObjectURL url s = s\<lparr>url_log := url_log s @ [RevokeObjectURL url]\<rparr>"

section \<open>The live graph\<close>

text \<open>
  \<^verbatim>\<open>connectAudioGraph\<close> is a callback that reads \<^verbatim>\<open>bypass\<close> from the render it was
  created in (\<^verbatim>\<open>useCallback(..., [bypass])\<close>); the value it has captured is the first
  argument here.
\<close>

definition connectAudioGraph :: "bool \<Rightarrow> app_state \<Rightarrow> app_state" where
  "connectAudioGraph captured_bypass s =
     (let n = audioNodesRef s in
      if source n = None \<or> bassFilter n = None \<or> midFilter n = None \<or> trebleFilter n = None \<or>
         masterGain n = None \<or> comp_node n = None \<or> audioContext n = None
      then s
      else
        let source = the (source n); bassFilter = the (bassFilter n);
            midFilter = the (midFilter n); trebleFilter = the (trebleFilter n);
            masterGain = the (masterGain n); comp = the (comp_node n);
            c = the (audioContext n);
            c = disconnect source c;
            c = disconnect bassFilter c;
            c = disconnect midFilter c;
            c = disconnect trebleFilter c;
            c = disconnect masterGain c;
            c = disconnect comp c;
            c = (if captured_bypass then connect source destination c
                 else
                   let c = connect source bassFilter c;
                       c = connect bassFilter midFilter c;
                       c = connect midFilter trebleFilter c;
                       c = connect trebleFilter comp c;
                       c = connect comp masterGain c
                   in connect masterGain destination c)
        in s\<lparr>audioNodesRef := n\<lparr>audioContext := Some c\<rparr>\<rparr>)"

text \<open>
  \<^verbatim>\<open>initializeAudioContext\<close> is memoized with no dependencies
  (\<^verbatim>\<open>useCallback(..., [])\<close>), so it is the function of the first render for as long as
  the component lives, and the \<^verbatim>\<open>connectAudioGraph\<close> it calls is the one of the first
  render, which has captured \<^verbatim>\<open>bypass = false\<close>. The constructor of the context takes
  what it needs from the hardware, or throws (\<open>None\<close>); the handler of the function
  catches that and leaves the nodes as they are.
\<close>

definition initializeAudioContext :: "hardware option \<Rightarrow> app_state \<Rightarrow> app_state" where
  "initializeAudioContext hw s =
     (if audioRef s = None then s
      else if audioContext (audioNodesRef s) \<noteq> None then s
      else case hw of
        None \<Rightarrow> s
      | Some h \<Rightarrow>
          let c = new_AudioContext h;
              (source, c) = createMediaElementSource c;
              (bassFilter, c) = createBiquadFilter c;
              c = update_node bassFilter (set_biquad (\<lambda>p. p\<lparr>filter_type := Lowshelf\<rparr>)) c;
              c = update_node bassFilter (set_biquad (\<lambda>p. p\<lparr>frequency := 100\<rparr>)) c;
              (midFilter, c) = createBiquadFilter c;
              c = update_node midFilter (set_biquad (\<lambda>p. p\<lparr>filter_type := Peaking\<rparr>)) c;
              c = update_node midFilter (set_biquad (\<lambda>p. p\<lparr>frequency := 1000\<rparr>)) c;
              c = update_node midFilter (set_biquad (\<lambda>p. p\<lparr>Q := 1.0\<rparr>)) c;
              (trebleFilter, c) = createBiquadFilter c;
              c = update_node trebleFilter (set_biquad (\<lambda>p. p\<lparr>filter_type := Highshelf\<rparr>)) c;
              c = update_node trebleFilter (set_biquad (\<lambda>p. p\<lparr>frequency := 8000\<rparr>)) c;
              (masterGain, c) = createGain c;
              c = update_node masterGain (set_gain 0.85) c;
              (comp, c) = createDynamicsCompressor c;
              c = update_node comp (set_compressor (\<lambda>p. p\<lparr>threshold := - 12\<rparr>)) c;
              c = update_node comp (set_compressor (\<lambda>p. p\<lparr>knee := 6\<rparr>)) c;
              c = update_node comp (set_compressor (\<lambda>p. p\<lparr>ratio := 3\<rparr>)) c;
              c = update_node comp (set_compressor (\<lambda>p. p\<lparr>attack := 0.003\<rparr>)) c;
              c = update_node comp (set_compressor (\<lambda>p. p\<lparr>release := 0.25\<rparr>)) c
          in connectAudioGraph False
               (s\<lparr>audioNodesRef :=
                    \<lparr>source = Some source, bassFilter = Some bassFilter,
                     midFilter = Some midFilter, trebleFilter = Some trebleFilter,
                     masterGain = Some masterGain, comp_node = Some comp,
                     audioContext = Some c\<rparr>\<rparr>))"

text \<open>
  \<^verbatim>\<open>applyEQSettings\<close> writes the three gains. The filters live in the context, so the
  model has nothing to write to without one; the two are set together.
\<close>

definition applyEQSettings :: "app_state \<Rightarrow> app_state" where
  "applyEQSettings s =
     (let n = audioNodesRef s in
      if bassFilter n = None \<or> midFilter n = None \<or> trebleFilter n = None then s
      else case audioContext n of
        None \<Rightarrow> s
      | Some c \<Rightarrow>
          let c = update_node (the (bassFilter n))
                    (set_biquad (\<lambda>p. p\<lparr>gain := bass (eqSettings s)\<rparr>)) c;
              c = update_node (the (midFilter n))
                    (set_biquad (\<lambda>p. p\<lparr>gain := mid (eqSettings s)\<rparr>)) c;
              c = update_node (the (trebleFilter n))
                    (set_biquad (\<lambda>p. p\<lparr>gain := treble (eqSettings s)\<rparr>)) c
          in s\<lparr>audioNodesRef := n\<lparr>audioContext := Some c\<rparr>\<rparr>)"

text \<open>
  \<^verbatim>\<open>updateEQValue(type, value)\<close> stores \<^verbatim>\<open>value[0]\<close>. The slider passes an array of one
  number; for an empty array the program would store \<^verbatim>\<open>undefined\<close>, which a setting
  of this model cannot hold, so that case has no equation.
\<close>

fun updateEQValue :: "eq_key \<Rightarrow> real list \<Rightarrow> app_state \<Rightarrow> app_state" where
  "updateEQValue KBass (v # vs) s = s\<lparr>eqSettings := (eqSettings s)\<lparr>bass := v\<rparr>\<rparr>"
| "updateEQValue KMid (v # vs) s = s\<lparr>eqSettings := (eqSettings s)\<lparr>mid := v\<rparr>\<rparr>"
| "updateEQValue KTreble (v # vs) s = s\<lparr>eqSettings := (eqSettings s)\<lparr>treble := v\<rparr>\<rparr>"

definition resetEQ :: "app_state \<Rightarrow> app_state" where
  "resetEQ s = s\<lparr>eqSettings := \<lparr>bass = 0, mid = 0, treble = 0\<rparr>\<rparr>"

section \<open>Files and playback\<close>

text \<open>
  \<^verbatim>\<open>handleFileUpload\<close>: nothing happens without a file or without the audio element.
  Setting \<^verbatim>\<open>src\<close> makes the element load the file: it is paused at position 0, and
  reports the duration of the file.
\<close>

definition handleFileUpload :: "audio_file option \<Rightarrow> app_state \<Rightarrow> app_state" where
  "handleFileUpload selected s =
     (case selected of
        None \<Rightarrow> s
      | Some f \<Rightarrow>
          (case audioRef s of
             None \<Rightarrow> s
           | Some el \<Rightarrow>
               let s = (case objectUrlRef s of
                          None \<Rightarrow> s
                        | Some old \<Rightarrow> revokeObjectURL old s);
                   (url, s) = createObjectURL s
               in s\<lparr>objectUrlRef := Some url,
                    audioRef := Some (el\<lparr>src := Some url, paused := True,
                                        duration := file_duration f, currentTime := 0\<rparr>),
                    currentFile := file_name f,
                    isPlaying := False\<rparr>))"

text \<open>The cleanup of the component: the object URL of the ref, if any, is revoked.\<close>

definition unmount :: "app_state \<Rightarrow> app_state" where
  "unmount s = (case objectUrlRef s of None \<Rightarrow> s | Some url \<Rightarrow> revokeObjectURL url s)"

text \<open>
  \<^verbatim>\<open>togglePlayPause\<close>: the graph is built on the first call; a suspended context is
  resumed; then the element plays or pauses. \<^verbatim>\<open>play()\<close> may be rejected by the platform
  (\<open>play_ok\<close> false), which the handler catches. The listeners of the element set
  \<^verbatim>\<open>isPlaying\<close> when it starts and stops.
\<close>

definition resume_context :: "app_state \<Rightarrow> app_state" where
  "resume_context s =
     (case audioContext (audioNodesRef s) of
        None \<Rightarrow> s
      | Some c \<Rightarrow>
          if suspended c
          then s\<lparr>audioNodesRef := (audioNodesRef s)\<lparr>audioContext := Some (c\<lparr>suspended := False\<rparr>)\<rparr>,
                 audioContextSuspended := False\<rparr>
          else s)"

definition togglePlayPause :: "hardware option \<Rightarrow> bool \<Rightarrow> app_state \<Rightarrow> app_state" where
  "togglePlayPause hw play_ok s =
     (if audioRef s = None then s
      else
        let s = initializeAudioContext hw s;
            s = resume_context s;
            el = the (audioRef s)
        in if paused el
           then (if play_ok then s\<lparr>audioRef := Some (el\<lparr>paused := False\<rparr>), isPlaying := True\<rparr>
                 else s)
           else s\<lparr>audioRef := Some (el\<lparr>paused := True\<rparr>), isPlaying := False\<rparr>)"

definition stopAudio :: "app_state \<Rightarrow> app_state" where
  "stopAudio s =
     (case audioRef s of
        None \<Rightarrow> s
      | Some el \<Rightarrow> s\<lparr>audioRef := Some (el\<lparr>paused := True, currentTime := 0\<rparr>),
                      isPlaying := False\<rparr>)"

section \<open>Export: saveAudio\<close>

text \<open>
  The asynchronous calls of \<^verbatim>\<open>saveAudio\<close> are parameters: what \<^verbatim>\<open>fetch\<close> returns for
  the source of the element, what \<^verbatim>\<open>decodeAudioData\<close> makes of the bytes at the sample
  rate of the context, the samples that the audio engine renders for an offline context
  (channel by channel, frame by frame), and the size up to which the engine allocates an
  ArrayBuffer. \<open>None\<close> is a rejected promise. \<^verbatim>\<open>startRendering\<close> resolves with a buffer
  of the dimensions of its context.
\<close>

record platform =
  fetch :: "nat option \<Rightarrow> byte list option"
  decodeAudioData :: "nat \<Rightarrow> byte list \<Rightarrow> audio_buffer option"
  engine :: "offline_context \<Rightarrow> (nat \<Rightarrow> nat \<Rightarrow> number) option"
  max_byte_length :: nat

definition startRendering :: "platform \<Rightarrow> offline_context \<Rightarrow> audio_buffer option" where
  "startRendering p c =
     (case engine p c of
        None \<Rightarrow> None
      | Some samples \<Rightarrow>
          Some \<lparr>buf_length = oc_length c, numberOfChannels = oc_numberOfChannels c,
                sampleRate = oc_sampleRate c,
                channelData =
                  map (\<lambda>channel. map (samples channel) [0..<oc_length c])
                    [0..<oc_numberOfChannels c]\<rparr>)"

text \<open>
  The graph that \<^verbatim>\<open>saveAudio\<close> builds in the offline context, with the handle of its
  source: six nodes created, configured and connected.
\<close>

definition offline_graph :: "eq_settings \<Rightarrow> offline_context \<Rightarrow> nat \<times> offline_context" where
  "offline_graph eq c =
     (let (source, c) = createBufferSource c;
          (bassFilter, c) = createBiquadFilter c;
          (midFilter, c) = createBiquadFilter c;
          (trebleFilter, c) = createBiquadFilter c;
          (masterGain, c) = createGain c;
          (comp, c) = createDynamicsCompressor c;
          c = update_node bassFilter (set_biquad (\<lambda>p. p\<lparr>filter_type := Lowshelf\<rparr>)) c;
          c = update_node bassFilter (set_biquad (\<lambda>p. p\<lparr>frequency := 100\<rparr>)) c;
          c = update_node bassFilter (set_biquad (\<lambda>p. p\<lparr>gain := bass eq\<rparr>)) c;
          c = update_node midFilter (set_biquad (\<lambda>p. p\<lparr>filter_type := Peaking\<rparr>)) c;
          c = update_node midFilter (set_biquad (\<lambda>p. p\<lparr>frequency := 1000\<rparr>)) c;
          c = update_node midFilter (set_biquad (\<lambda>p. p\<lparr>Q := 1.0\<rparr>)) c;
          c = update_node midFilter (set_biquad (\<lambda>p. p\<lparr>gain := mid eq\<rparr>)) c;
          c = update_node trebleFilter (set_biquad (\<lambda>p. p\<lparr>filter_type := Highshelf\<rparr>)) c;
          c = update_node trebleFilter (set_biquad (\<lambda>p. p\<lparr>frequency := 8000\<rparr>)) c;
          c = update_node trebleFilter (set_biquad (\<lambda>p. p\<lparr>gain := treble eq\<rparr>)) c;
          c = update_node masterGain (set_gain 0.85) c;
          c = update_node comp (set_compressor (\<lambda>p. p\<lparr>threshold := - 12\<rparr>)) c;
          c = update_node comp (set_compressor (\<lambda>p. p\<lparr>knee := 6\<rparr>)) c;
          c = update_node comp (set_compressor (\<lambda>p. p\<lparr>ratio := 3\<rparr>)) c;
          c = update_node comp (set_compressor (\<lambda>p. p\<lparr>attack := 0.003\<rparr>)) c;
          c = update_node comp (set_compressor (\<lambda>p. p\<lparr>release := 0.25\<rparr>)) c;
          c = connect source bassFilter c;
          c = connect bassFilter midFilter c;
          c = connect midFilter trebleFilter c;
          c = connect trebleFilter comp c;
          c = connect comp masterGain c;
          c = connect masterGain destination c
      in (source, c))"

text \<open>
  The \<^verbatim>\<open>try\<close> block of \<^verbatim>\<open>saveAudio\<close> up to the rendering: the offline context is
  constructed from the live context and the element, the graph is built, the file is
  fetched and decoded, the source is started and the context rendered.
\<close>

definition rendered_buffer ::
  "platform \<Rightarrow> eq_settings \<Rightarrow> audio_element \<Rightarrow> audio_context \<Rightarrow> audio_buffer option" where
  "rendered_buffer p eq el live =
     do {
       offlineContext \<leftarrow>
         new_OfflineAudioContext (channelCount live)
           (num_times (Fin (real (ctx_sampleRate live))) (duration el)) (ctx_sampleRate live);
       (source, offlineContext) \<leftarrow> Some (offline_graph eq offlineContext);
       arrayBuffer \<leftarrow> fetch p (src el);
       audioBuffer \<leftarrow> decodeAudioData p (oc_sampleRate offlineContext) arrayBuffer;
       offlineContext \<leftarrow> Some (update_node source (set_buffer audioBuffer) offlineContext);
       offlineContext \<leftarrow> Some (update_node source start_source offlineContext);
       startRendering p offlineContext
     }"

datatype effect = Alert string | ConsoleError string | Download string "byte list"

text \<open>
  \<^verbatim>\<open>saveAudio\<close> returns the state it leaves and what the user gets to see: alerts, and
  the download of a file with a name and a content. The download is made through an
  object URL of its own, created and revoked in the same call.
\<close>

definition saveAudio :: "platform \<Rightarrow> app_state \<Rightarrow> app_state \<times> effect list" where
  "saveAudio p s =
     (if audioRef s = None \<or> audioContext (audioNodesRef s) = None
      then (s, [Alert ''Please load an audio file first''])
      else
        (case (rendered_buffer p (eqSettings s) (the (audioRef s))
                 (the (audioContext (audioNodesRef s))) \<bind>
               audioBufferToCompressedAudio (max_byte_length p)) of
           None \<Rightarrow>
             (s, [ConsoleError ''Error saving audio:'',
                  Alert ''Error saving audio. Please try again.''])
         | Some audioBlob \<Rightarrow>
             (let (url, s) = createObjectURL s
              in (revokeObjectURL url s,
                  [Download (''processed_'' @ currentFile s) audioBlob]))))"

section \<open>Events\<close>

text \<open>
  What the user and the platform do to the component. After an event that sets
  \<^verbatim>\<open>bypass\<close> the effect with the dependency \<^verbatim>\<open>bypass\<close> runs \<^verbatim>\<open>connectAudioGraph\<close>, the
  callback of that render, which has the new value; after one that sets
  \<^verbatim>\<open>eqSettings\<close> the effect with that dependency runs \<^verbatim>\<open>applyEQSettings\<close>. No other
  event changes a dependency of the two effects. \<^verbatim>\<open>resumeAudio\<close> does what
  \<^verbatim>\<open>togglePlayPause\<close> does to a suspended context. The events are not restricted to
  those that the page offers at the time (its controls appear once a file is loaded):
  what holds after every sequence of events holds after those.
\<close>

datatype event =
    FileUpload "audio_file option"
  | TogglePlayPause "hardware option" bool
  | StopAudio
  | ToggleBypass
  | UpdateEQ eq_key real
  | ResetEQ
  | SaveAudio platform
  | ResumeAudio

fun step :: "event \<Rightarrow> app_state \<Rightarrow> app_state" where
  "step (FileUpload selected) s = handleFileUpload selected s"
| "step (TogglePlayPause hw play_ok) s = togglePlayPause hw play_ok s"
| "step StopAudio s = stopAudio s"
| "step ToggleBypass s = connectAudioGraph (\<not> bypass s) (s\<lparr>bypass := \<not> bypass s\<rparr>)"
| "step (UpdateEQ key v) s = applyEQSettings (updateEQValue key [v] s)"
| "step ResetEQ s = applyEQSettings (resetEQ s)"
| "step (SaveAudio p) s = fst (saveAudio p s)"
| "step ResumeAudio s = resume_context s"

definition run :: "event list \<Rightarrow> app_state \<Rightarrow> app_state" where
  "run events s = foldl (\<lambda>s e. step e s) s events"

text \<open>The two topologies of the live graph, and what it is to have all nodes or none.\<close>

definition full_chain :: "nat \<Rightarrow> nat \<Rightarrow> nat \<Rightarrow> nat \<Rightarrow> nat \<Rightarrow> nat \<Rightarrow> (nat \<times> nat) list" where
  "full_chain src_node bass_node mid_node treble_node compressor_node gain_node =
     [(src_node, bass_node), (bass_node, mid_node), (mid_node, treble_node),
      (treble_node, compressor_node), (compressor_node, gain_node),
      (gain_node, destination)]"

definition bypass_path :: "nat \<Rightarrow> (nat \<times> nat) list" where
  "bypass_path src_node = [(src_node, destination)]"

definition populated :: "audio_nodes \<Rightarrow> bool" where
  "populated n =
     (source n \<noteq> None \<and> bassFilter n \<noteq> None \<and> midFilter n \<noteq> None \<and>
      trebleFilter n \<noteq> None \<and> masterGain n \<noteq> None \<and> comp_node n \<noteq> None \<and>
      audioContext n \<noteq> None)"

text \<open>
  The shape of the AudioNodes once \<^verbatim>\<open>initializeAudioContext\<close> has built them: the
  handles are those of the six nodes in the order of their creation, the parameters that
  the program sets once are set, and what varies is the hardware the context came from,
  the three gains and the connections.
\<close>

definition live_nodes ::
  "nat \<Rightarrow> nat \<Rightarrow> bool \<Rightarrow> real \<Rightarrow> real \<Rightarrow> real \<Rightarrow> (nat \<times> nat) list \<Rightarrow> audio_nodes" where
  "live_nodes rate channels susp bass_gain mid_gain treble_gain connections =
     \<lparr>source = Some 1, bassFilter = Some 2, midFilter = Some 3, trebleFilter = Some 4,
      masterGain = Some 5, comp_node = Some 6,
      audioContext = Some
        \<lparr>nodes =
           [Destination, MediaElementSource,
            BiquadFilter \<lparr>filter_type = Lowshelf, frequency = 100, Q = 1, gain = bass_gain\<rparr>,
            BiquadFilter \<lparr>filter_type = Peaking, frequency = 1000, Q = 1, gain = mid_gain\<rparr>,
            BiquadFilter \<lparr>filter_type = Highshelf, frequency = 8000, Q = 1, gain = treble_gain\<rparr>,
            Gain 0.85,
            DynamicsCompressor
              \<lparr>threshold = - 12, knee = 6, ratio = 3, attack = 0.003, release = 0.25\<rparr>],
         edges = connections, ctx_sampleRate = rate, channelCount = channels,
         suspended = susp\<rparr>\<rparr>"

text \<open>
  The invariant of the component: the audio element is there, and the nodes are all
  absent or all built, connected as the full chain or, only while \<^verbatim>\<open>bypass\<close> is set, as
  the bypass path.
\<close>

definition wired :: "app_state \<Rightarrow> bool" where
  "wired s =
     (audioRef s \<noteq> None \<and>
      (audioNodesRef s = no_nodes \<or>
       (\<exists>rate channels susp gb gm gt es.
          audioNodesRef s = live_nodes rate channels susp gb gm gt es \<and>
          (es = full_chain 1 2 3 4 6 5 \<or> bypass s \<and> es = bypass_path 1))))"

text \<open>
  A graph is the processing chain on seven of its nodes when they are connected in the
  order source, bass, mid, treble, compressor, master gain, destination and the stages
  have the fixed parameters.
\<close>

definition processing_chain ::
  "'a audio_graph_scheme \<Rightarrow> nat \<Rightarrow> nat \<Rightarrow> nat \<Rightarrow> nat \<Rightarrow> nat \<Rightarrow> nat \<Rightarrow> bool" where
  "processing_chain g src_node bass_node mid_node treble_node compressor_node gain_node =
     (edges g = full_chain src_node bass_node mid_node treble_node compressor_node gain_node \<and>
      (case nodes g ! bass_node of
         BiquadFilter p \<Rightarrow> filter_type p = Lowshelf \<and> frequency p = 100
       | other \<Rightarrow> False) \<and>
      (case nodes g ! mid_node of
         BiquadFilter p \<Rightarrow> filter_type p = Peaking \<and> frequency p = 1000 \<and> Q p = 1
       | other \<Rightarrow> False) \<and>
      (case nodes g ! treble_node of
         BiquadFilter p \<Rightarrow> filter_type p = Highshelf \<and> frequency p = 8000
       | other \<Rightarrow> False) \<and>
      (case nodes g ! compressor_node of
         DynamicsCompressor p \<Rightarrow>
           threshold p = - 12 \<and> knee p = 6 \<and> ratio p = 3 \<and> attack p = 0.003 \<and>
           release p = 0.25
       | other \<Rightarrow> False) \<and>
      nodes g ! gain_node = Gain 0.85 \<and>
      nodes g ! destination = Destination)"

text \<open>The setting of a band, and the gain of its live filter (none without the graph).\<close>

fun setting :: "eq_key \<Rightarrow> eq_settings \<Rightarrow> real" where
  "setting KBass eq = bass eq"
| "setting KMid eq = mid eq"
| "setting KTreble eq = treble eq"

fun filter_of :: "eq_key \<Rightarrow> audio_nodes \<Rightarrow> nat option" where
  "filter_of KBass n = bassFilter n"
| "filter_of KMid n = midFilter n"
| "filter_of KTreble n = trebleFilter n"

definition filter_gain :: "eq_key \<Rightarrow> app_state \<Rightarrow> real option" where
  "filter_gain key s =
     (case (filter_of key (audioNodesRef s), audioContext (audioNodesRef s)) of
        (Some i, Some c) \<Rightarrow>
          (case nodes c ! i of BiquadFilter p \<Rightarrow> Some (gain p) | other \<Rightarrow> None)
      | other \<Rightarrow> None)"

text \<open>The connections of the live graph (none without it).\<close>

definition topology :: "app_state \<Rightarrow> (nat \<times> nat) list" where
  "topology s = (case audioContext (audioNodesRef s) of None \<Rightarrow> [] | Some c \<Rightarrow> edges c)"

text \<open>The six node handles of the AudioNodes.\<close>

definition handles ::
  "audio_nodes \<Rightarrow> nat option \<times> nat option \<times> nat option \<times> nat option \<times> nat option \<times> nat option"
  where
  "handles n =
     (source n, bassFilter n, midFilter n, trebleFilter n, masterGain n, comp_node n)"

text \<open>
  The log of a component that created \<open>n\<close> object URLs one after the other and revoked
  each before it created the next.
\<close>

definition released_in_turn :: "nat \<Rightarrow> url_event list" where
  "released_in_turn n =
     concat (map (\<lambda>url. [CreateObjectURL url, RevokeObjectURL url]) [0..<n])"

text \<open>
  The state of the object URLs after \<open>n\<close> files have been loaded: the ref holds the last
  URL, which alone has not been revoked.
\<close>

definition uploaded :: "nat \<Rightarrow> app_state \<Rightarrow> bool" where
  "uploaded n s =
     (audioRef s \<noteq> None \<and> next_url s = n \<and>
      (case n of
         0 \<Rightarrow> objectUrlRef s = None \<and> url_log s = []
       | Suc k \<Rightarrow> objectUrlRef s = Some k \<and> url_log s = released_in_turn k @ [CreateObjectURL k]))"

text \<open>
  Inputs for the examples below: a file of two seconds, and audio hardware at 44100 Hz
  with a stereo destination, on which a context starts running.
\<close>

definition sample_file :: audio_file where
  "sample_file = \<lparr>file_name = ''tone.mp3'', file_duration = Fin 2\<rparr>"

definition sample_hardware :: hardware where
  "sample_hardware = \<lparr>hw_sampleRate = 44100, hw_channelCount = 2, hw_suspended = False\<rparr>"

text \<open>
  Two platforms for the examples: one on which every asynchronous call is rejected and
  nothing can be allocated, and one that fetches a file which decodes to two seconds of
  mono silence, renders silence, and allocates up to \<open>2 ^ 53\<close> bytes.
\<close>

definition failing_platform :: platform where
  "failing_platform =
     \<lparr>fetch = (\<lambda>url. None), decodeAudioData = (\<lambda>rate bytes. None),
      engine = (\<lambda>c. None), max_byte_length = 0\<rparr>"

definition sample_platform :: platform where
  "sample_platform =
     \<lparr>fetch = (\<lambda>url. Some []),
      decodeAudioData = (\<lambda>rate bytes.
        Some \<lparr>buf_length = 2 * rate, numberOfChannels = 1, sampleRate = rate,
              channelData = [replicate (2 * rate) (Fin 0)]\<rparr>),
      engine = (\<lambda>c. Some (\<lambda>channel i. Fin 0)),
      max_byte_length = 2 ^ 53\<rparr>"

section \<open>Properties of the serializer\<close>

lemma length_bytes16 [simp]: "length (bytes16 w e) = 2"
  by (simp add: bytes16_def Let_def)

lemma length_bytes32 [simp]: "length (bytes32 w e) = 4"
  by (simp add: bytes32_def Let_def)

lemma length_pcm16 [simp]: "length (pcm16 x) = 2"
  by (simp add: pcm16_def)

lemma store_bytes_fresh:
  "length pre = off \<Longrightarrow> length bs \<le> k \<Longrightarrow>
   store_bytes (pre @ replicate k 0) off bs = Some ((pre @ bs) @ replicate (k - length bs) 0)"
  by (simp add: store_bytes_def)

lemma writeString_fresh:
  "length pre = off \<Longrightarrow> length cs \<le> k \<Longrightarrow>
   writeString (pre @ replicate k 0) off cs =
     Some ((pre @ map (\<lambda>c. of_nat (of_char c)) cs) @ replicate (k - length cs) 0)"
proof (induction cs arbitrary: pre off k)
  case Nil
  then show ?case by simp
next
  case (Cons c cs)
  from Cons.prems have step:
    "setUint8 (pre @ replicate k 0) off (of_char c) =
       Some ((pre @ [of_nat (of_char c)]) @ replicate (k - 1) 0)"
    by (simp add: setUint8_def store_bytes_fresh)
  from Cons.prems have "length (pre @ [of_nat (of_char c) :: byte]) = off + 1" "length cs \<le> k - 1"
    by simp_all
  from Cons.IH [OF this] step show ?case by simp
qed

lemma length_frame_bytes [simp]: "length (frame_bytes b i lo hi) = 2 * (hi - lo)"
  by (simp add: frame_bytes_def length_concat comp_def sum_list_triv)

lemma frame_bytes_step:
  "lo < hi \<Longrightarrow> frame_bytes b i lo hi = pcm16 (float32_at (channelData b ! lo) i) @ frame_bytes b i (Suc lo) hi"
  by (simp add: frame_bytes_def upt_conv_Cons)

lemma convertChannels_fresh:
  "length pre = offset \<Longrightarrow> length (channelData b) = numberOfChannels b \<Longrightarrow>
   channel \<le> numberOfChannels b \<Longrightarrow> 2 * (numberOfChannels b - channel) \<le> k \<Longrightarrow>
   convertChannels b i channel (pre @ replicate k 0) offset =
     Some ((pre @ frame_bytes b i channel (numberOfChannels b)) @
             replicate (k - 2 * (numberOfChannels b - channel)) 0,
           offset + 2 * (numberOfChannels b - channel))"
proof (induction b i channel "pre @ replicate k (0 :: byte)" offset arbitrary: pre k
    rule: convertChannels.induct)
  case (1 buffer i channel offset)
  show ?case
  proof (cases "channel < numberOfChannels buffer")
    case False
    with "1.prems" have "channel = numberOfChannels buffer" by simp
    then show ?thesis by (simp add: frame_bytes_def)
  next
    case True
    let ?bs = "pcm16 (float32_at (channelData buffer ! channel) i)"
    from True "1.prems" have get:
      "getChannelData buffer channel = Some (channelData buffer ! channel)"
      by (simp add: getChannelData_def)
    from True "1.prems" have k2: "2 \<le> k" by simp
    with "1.prems" have set:
      "setInt16 (pre @ replicate k 0) offset
         (scaled_sample (float32_at (channelData buffer ! channel) i)) True =
       Some ((pre @ ?bs) @ replicate (k - 2) 0)"
      by (simp add: setInt16_def pcm16_def store_bytes_fresh)
    have "convertChannels buffer i (channel + 1) ((pre @ ?bs) @ replicate (k - 2) 0) (offset + 2) =
       Some (((pre @ ?bs) @ frame_bytes buffer i (channel + 1) (numberOfChannels buffer)) @
             replicate (k - 2 - 2 * (numberOfChannels buffer - (channel + 1))) 0,
           offset + 2 + 2 * (numberOfChannels buffer - (channel + 1)))"
      using True "1.prems" k2
      by (intro "1.hyps" [OF True get set]) simp_all
    moreover have "k - 2 - 2 * (numberOfChannels buffer - (channel + 1)) =
        k - 2 * (numberOfChannels buffer - channel)"
      using True by simp
    moreover have "offset + 2 + 2 * (numberOfChannels buffer - (channel + 1)) =
        offset + 2 * (numberOfChannels buffer - channel)"
      using True by simp
    ultimately show ?thesis
      using True get set
      by (subst convertChannels.simps) (simp add: frame_bytes_step [OF True])
  qed
qed


lemma length_pcm_data [simp]:
  "length (pcm_data b lo hi) = 2 * numberOfChannels b * (hi - lo)"
  by (simp add: pcm_data_def length_concat comp_def sum_list_triv)

lemma pcm_data_step:
  "lo < hi \<Longrightarrow>
   pcm_data b lo hi = frame_bytes b lo 0 (numberOfChannels b) @ pcm_data b (Suc lo) hi"
  by (simp add: pcm_data_def upt_conv_Cons)

lemma convertFrames_fresh:
  "length pre = offset \<Longrightarrow> length (channelData b) = numberOfChannels b \<Longrightarrow>
   i \<le> buf_length b \<Longrightarrow> 2 * numberOfChannels b * (buf_length b - i) \<le> k \<Longrightarrow>
   convertFrames b i (pre @ replicate k 0) offset =
     Some ((pre @ pcm_data b i (buf_length b)) @
             replicate (k - 2 * numberOfChannels b * (buf_length b - i)) 0,
           offset + 2 * numberOfChannels b * (buf_length b - i))"
proof (induction b i "pre @ replicate k (0 :: byte)" offset arbitrary: pre k
    rule: convertFrames.induct)
  case (1 buffer i offset)
  let ?C = "numberOfChannels buffer" and ?L = "buf_length buffer"
  show ?case
  proof (cases "i < ?L")
    case False
    with "1.prems" have "i = ?L" by simp
    then show ?thesis by (simp add: pcm_data_def)
  next
    case True
    let ?fr = "frame_bytes buffer i 0 ?C"
    have split: "2 * ?C * (?L - i) = 2 * ?C + 2 * ?C * (?L - Suc i)"
    proof -
      from True have "?L - i = Suc (?L - Suc i)" by simp
      then show ?thesis by (simp only: mult_Suc_right)
    qed
    with "1.prems" have room: "2 * (?C - 0) \<le> k" by simp
    have row: "convertChannels buffer i 0 (pre @ replicate k 0) offset =
        Some ((pre @ ?fr) @ replicate (k - 2 * ?C) 0, offset + 2 * ?C)"
      using convertChannels_fresh [OF "1.prems"(1,2) _ room, of i] by simp
    have "convertFrames buffer (i + 1) ((pre @ ?fr) @ replicate (k - 2 * ?C) 0) (offset + 2 * ?C) =
       Some (((pre @ ?fr) @ pcm_data buffer (i + 1) ?L) @
             replicate (k - 2 * ?C - 2 * ?C * (?L - (i + 1))) 0,
           offset + 2 * ?C + 2 * ?C * (?L - (i + 1)))"
      using True "1.prems" split
      by (intro "1.hyps" [OF True row refl]) simp_all
    moreover have "k - 2 * ?C - 2 * ?C * (?L - (i + 1)) = k - 2 * ?C * (?L - i)"
      using split by simp
    moreover have "offset + 2 * ?C + 2 * ?C * (?L - (i + 1)) = offset + 2 * ?C * (?L - i)"
      using split by simp
    ultimately show ?thesis
      using True row
      by (subst convertFrames.simps) (simp add: pcm_data_step [OF True])
  qed
qed

lemma new_ArrayBuffer_fresh:
  "n \<le> m \<Longrightarrow> new_ArrayBuffer m n = Some (fresh [] n)"
  by (simp add: new_ArrayBuffer_def fresh_def)

lemma writeString_fresh':
  "length pre = off \<Longrightarrow> length cs \<le> k \<Longrightarrow>
   writeString (fresh pre k) off cs =
     Some (fresh (pre @ char_codes cs) (k - length cs))"
  by (simp add: fresh_def writeString_fresh char_codes_def)

lemma setUint16_fresh:
  "length pre = off \<Longrightarrow> 2 \<le> k \<Longrightarrow>
   setUint16 (fresh pre k) off v e = Some (fresh (pre @ bytes16 (of_nat v) e) (k - 2))"
  by (simp add: fresh_def setUint16_def store_bytes_fresh)

lemma setUint32_fresh:
  "length pre = off \<Longrightarrow> 4 \<le> k \<Longrightarrow>
   setUint32 (fresh pre k) off v e = Some (fresh (pre @ bytes32 (of_nat v) e) (k - 4))"
  by (simp add: fresh_def setUint32_def store_bytes_fresh)

lemma length_char_codes [simp]: "length (char_codes cs) = length cs"
  by (simp add: char_codes_def)

lemma length_wav_header [simp]: "length (wav_header l c r) = 44"
  by (simp add: wav_header_def)

lemma serializer_bytes:
  assumes wf: "length (channelData b) = numberOfChannels b"
  shows "audioBufferToCompressedAudio m b =
     (if 44 + buf_length b * numberOfChannels b * 2 \<le> m
      then Some (wav_header (buf_length b) (numberOfChannels b) (sampleRate b) @
                 pcm_data b 0 (buf_length b))
      else None)"
proof (cases "44 + buf_length b * numberOfChannels b * 2 \<le> m")
  case False
  then show ?thesis
    by (simp add: audioBufferToCompressedAudio_def Let_def new_ArrayBuffer_def)
next
  case True
  let ?n = "buf_length b * numberOfChannels b * 2"
  let ?h = "wav_header (buf_length b) (numberOfChannels b) (sampleRate b)"
  have frames: "convertFrames b 0 (fresh h ?n) 44 =
      Some (h @ pcm_data b 0 (buf_length b), 44 + ?n)" if "length h = 44" for h
    using convertFrames_fresh [of h 44 b 0 ?n] wf that
    by (simp add: fresh_def mult_ac)
  show ?thesis
    using True
    by (simp add: audioBufferToCompressedAudio_def Let_def new_ArrayBuffer_fresh
        writeString_fresh' setUint16_fresh setUint32_fresh frames wav_header_def
        del: writeString.simps convertFrames.simps)
qed


lemma unat_bytes16:
  fixes w :: "16 word"
  shows "unat (ucast w :: byte) + 256 * unat (ucast (drop_bit 8 w) :: byte) = unat w"
proof -
  have "unat w < 65536" using unsigned_less [of w, where ?'a = nat] by simp
  then show ?thesis
    by (simp add: unsigned_ucast_eq unat_drop_bit_eq drop_bit_eq_div [where ?'a = nat] take_bit_eq_mod)
qed

lemma bytes_decomp:
  fixes x :: nat
  shows "x mod 256 + 256 * (x div 256 mod 256) + 65536 * (x div 65536 mod 256)
    + 16777216 * (x div 16777216) = x"
proof -
  define a where "a = x div 256"
  define b where "b = a div 256"
  define c where "c = b div 256"
  have e1: "x div 65536 = b" and e2: "x div 16777216 = c"
    by (simp_all add: a_def b_def c_def div_mult2_eq [symmetric])
  have "x = x mod 256 + 256 * a" by (simp add: a_def)
  moreover have "a = a mod 256 + 256 * b" by (simp add: b_def)
  moreover have "b = b mod 256 + 256 * c" by (simp add: c_def)
  ultimately show ?thesis
    unfolding e1 e2 a_def [symmetric] by linarith
qed

lemma unat_bytes32:
  fixes w :: "32 word"
  shows "unat (ucast w :: byte) + 256 * unat (ucast (drop_bit 8 w) :: byte)
     + 65536 * unat (ucast (drop_bit 16 w) :: byte)
     + 16777216 * unat (ucast (drop_bit 24 w) :: byte) = unat w"
proof -
  have "unat w < 4294967296" using unsigned_less [of w, where ?'a = nat] by simp
  then have "unat w div 16777216 mod 256 = unat w div 16777216"
    by simp
  then show ?thesis
    using bytes_decomp [of "unat w"]
    by (simp add: unsigned_ucast_eq unat_drop_bit_eq drop_bit_eq_div [where ?'a = nat]
        take_bit_eq_mod)
qed

lemma js_trunc_bounds:
  assumes "lo \<le> 0" "0 \<le> hi" "real_of_int lo \<le> x" "x \<le> real_of_int hi"
  shows "lo \<le> js_trunc x \<and> js_trunc x \<le> hi"
proof (cases "x < 0")
  case True
  then have "js_trunc x = - \<lfloor>- x\<rfloor>" by (simp add: js_trunc_def)
  moreover have "\<lfloor>- x\<rfloor> \<le> - lo" using assms(3) by (simp add: floor_le_iff) 
  moreover have "0 \<le> \<lfloor>- x\<rfloor>" using True by simp
  ultimately show ?thesis using assms(1,2) by linarith
next
  case False
  then have "js_trunc x = \<lfloor>x\<rfloor>" by (simp add: js_trunc_def)
  moreover have "\<lfloor>x\<rfloor> \<le> hi" using assms(4) by (simp add: floor_le_iff)
  moreover have "0 \<le> \<lfloor>x\<rfloor>" using False by simp
  ultimately show ?thesis using assms(1,2) by linarith
qed

lemma sint_ToInt16_scaled: "sint (ToInt16 (scaled_sample x)) = quantize_spec x"
proof (cases x)
  case (Fin r)
  define c where "c = max (- 1) (min 1 r)"
  define y where "y = (if c < 0 then c * 32768 else c * 32767)"
  have "- 1 \<le> c" "c \<le> 1" by (simp_all add: c_def)
  then have "real_of_int (- 32768) \<le> y" "y \<le> real_of_int 32767"
    by (simp_all add: y_def)
  then have "- 32768 \<le> js_trunc y \<and> js_trunc y \<le> 32767"
    by (intro js_trunc_bounds) simp_all
  then have word: "sint (word_of_int (js_trunc y) :: 16 word) = js_trunc y"
    by (simp add: sint_sbintrunc' signed_take_bit_int_eq_self)
  have "scaled_sample x = Fin y"
    unfolding scaled_sample_def Fin y_def c_def by (auto simp add: Let_def min_def max_def)
  moreover have "quantize_spec x = js_trunc y"
    unfolding quantize_spec_def Fin y_def c_def by (simp add: Let_def)
  ultimately show ?thesis using word by simp
qed (simp_all add: scaled_sample_def quantize_spec_def js_trunc_def)

lemma nth_concat_uniform:
  "(\<And>j. j < n \<Longrightarrow> length (f j) = m) \<Longrightarrow> k < n \<Longrightarrow> r < m \<Longrightarrow>
   concat (map f [0..<n]) ! (k * m + r) = f k ! r"
proof (induction n)
  case 0
  then show ?case by simp
next
  case (Suc n)
  have same: "map (\<lambda>j. length (f j)) [0..<n] = map (\<lambda>j. m) [0..<n]"
    using Suc.prems(1) by (intro map_cong) simp_all
  have "length (concat (map f [0..<n])) = sum_list (map (\<lambda>j. length (f j)) [0..<n])"
    by (simp add: length_concat comp_def)
  also have "\<dots> = sum_list (map (\<lambda>j. m) [0..<n])"
    by (simp only: same)
  also have "\<dots> = n * m"
    by (simp add: sum_list_triv)
  finally have len: "length (concat (map f [0..<n])) = n * m" .
  show ?case
  proof (cases "k < n")
    case True
    then have "Suc k \<le> n" by simp
    then have "Suc k * m \<le> n * m" by (rule mult_le_mono1)
    with \<open>r < m\<close> have "k * m + r < n * m" by simp
    with True Suc len show ?thesis by (simp add: nth_append)
  next
    case False
    with Suc.prems have "k = n" by simp
    with Suc.prems len show ?thesis by (simp add: nth_append)
  qed
qed

lemma frame_bytes_nth:
  "channel < hi \<Longrightarrow> r < 2 \<Longrightarrow>
   frame_bytes b i 0 hi ! (channel * 2 + r) =
     pcm16 (float32_at (channelData b ! channel) i) ! r"
  unfolding frame_bytes_def by (rule nth_concat_uniform) simp_all

lemma pcm_data_nth:
  assumes "i < hi" "channel < numberOfChannels b" "r < 2"
  shows "pcm_data b 0 hi ! (2 * (i * numberOfChannels b + channel) + r) =
     pcm16 (float32_at (channelData b ! channel) i) ! r"
proof -
  let ?C = "numberOfChannels b"
  have "pcm_data b 0 hi ! (i * (2 * ?C) + (channel * 2 + r)) =
      frame_bytes b i 0 ?C ! (channel * 2 + r)"
    unfolding pcm_data_def using assms
    by (intro nth_concat_uniform) simp_all
  moreover have "i * (2 * ?C) + (channel * 2 + r) = 2 * (i * ?C + channel) + r"
    by (simp add: algebra_simps)
  ultimately show ?thesis
    using assms by (simp add: frame_bytes_nth)
qed

lemma getUint16_bytes16: "getUint16 (bytes16 w True) 0 = unat w"
  using unat_bytes16 [of w] by (simp add: getUint16_def bytes16_def)

lemma getInt16_pcm_data:
  assumes "i < hi" "channel < numberOfChannels b" "length h = 44"
  shows "getInt16 (h @ pcm_data b 0 hi) (44 + 2 * (i * numberOfChannels b + channel)) =
     quantize_spec (float32_at (channelData b ! channel) i)"
proof -
  let ?p = "2 * (i * numberOfChannels b + channel)"
  let ?s = "pcm16 (float32_at (channelData b ! channel) i)"
  have "(h @ pcm_data b 0 hi) ! (44 + ?p) = ?s ! 0"
    using pcm_data_nth [OF assms(1,2), of 0] assms(3) by (simp add: nth_append)
  moreover have "(h @ pcm_data b 0 hi) ! (44 + ?p + 1) = ?s ! 1"
    using pcm_data_nth [OF assms(1,2), of 1] assms(3) by (simp add: nth_append)
  ultimately have "getUint16 (h @ pcm_data b 0 hi) (44 + ?p) = getUint16 ?s 0"
    by (simp add: getUint16_def)
  then show ?thesis
    by (simp add: getInt16_def pcm16_def getUint16_bytes16 sint_ToInt16_scaled)
qed


lemma header_markers:
  "take 4 (wav_header l c r @ rest) = char_codes ''RIFF''"
  "take 4 (drop 8 (wav_header l c r @ rest)) = char_codes ''WAVE''"
  "take 4 (drop 12 (wav_header l c r @ rest)) = char_codes ''fmt ''"
  "take 4 (drop 36 (wav_header l c r @ rest)) = char_codes ''data''"
  by (simp_all add: wav_header_def)

lemma header_fields16:
  "getUint16 (wav_header l c r @ rest) 20 = 1"
  "getUint16 (wav_header l c r @ rest) 22 = unat (of_nat c :: 16 word)"
  "getUint16 (wav_header l c r @ rest) 32 = unat (of_nat (c * 2) :: 16 word)"
  "getUint16 (wav_header l c r @ rest) 34 = 16"
  using unat_bytes16 [of "of_nat c"] unat_bytes16 [of "of_nat (c * 2)"]
    unat_bytes16 [of 1] unat_bytes16 [of 16]
  by (simp_all add: getUint16_def wav_header_def char_codes_def bytes16_def bytes32_def
      nth_append)

lemma header_fields32:
  "getUint32 (wav_header l c r @ rest) 24 = unat (of_nat r :: 32 word)"
  "getUint32 (wav_header l c r @ rest) 28 = unat (of_nat (r * c * 2) :: 32 word)"
  "getUint32 (wav_header l c r @ rest) 40 = unat (of_nat (l * c * 2) :: 32 word)"
  using unat_bytes32 [of "of_nat r"] unat_bytes32 [of "of_nat (r * c * 2)"]
    unat_bytes32 [of "of_nat (l * c * 2)"]
  by (simp_all add: getUint32_def wav_header_def char_codes_def bytes16_def bytes32_def
      nth_append)


text \<open>
  Claim C2, as the code has it. For a well-formed buffer of \<open>L\<close> frames, \<open>C\<close> channels
  and sample rate \<open>R\<close> that the engine can allocate 44 + L*C*2 bytes for, and whose
  \<open>L*C*2\<close>, \<open>R\<close> and \<open>R*C*2\<close> fit the 32-bit fields and \<open>C*2\<close> the 16-bit fields of the
  header, \<^verbatim>\<open>audioBufferToCompressedAudio\<close> returns exactly 44 + L*C*2 bytes: the markers
  RIFF, WAVE, fmt and data, format tag 1, channel count \<open>C\<close>, sample rate \<open>R\<close>, byte rate
  \<open>R*C*2\<close>, block align \<open>C*2\<close>, bit depth 16 and data length \<open>L*C*2\<close>, then the samples,
  frame by frame and channel by channel, each the little-endian 16-bit value of the
  sample clamped to [-1, 1] and scaled by 32768 if negative and by 32767 otherwise.
\<close>

theorem wav_container_layout:
  assumes "wf_buffer b"
    and "44 + buf_length b * numberOfChannels b * 2 \<le> maxByteLength"
    and "buf_length b * numberOfChannels b * 2 < 2 ^ 32"
    and "sampleRate b < 2 ^ 32"
    and "sampleRate b * numberOfChannels b * 2 < 2 ^ 32"
    and "numberOfChannels b * 2 < 2 ^ 16"
  shows "\<exists>bytes. audioBufferToCompressedAudio maxByteLength b = Some bytes \<and>
      length bytes = 44 + buf_length b * numberOfChannels b * 2 \<and>
      take 4 bytes = char_codes ''RIFF'' \<and>
      take 4 (drop 8 bytes) = char_codes ''WAVE'' \<and>
      take 4 (drop 12 bytes) = char_codes ''fmt '' \<and>
      getUint16 bytes 20 = 1 \<and>
      getUint16 bytes 22 = numberOfChannels b \<and>
      getUint32 bytes 24 = sampleRate b \<and>
      getUint32 bytes 28 = sampleRate b * numberOfChannels b * 2 \<and>
      getUint16 bytes 32 = numberOfChannels b * 2 \<and>
      getUint16 bytes 34 = 16 \<and>
      take 4 (drop 36 bytes) = char_codes ''data'' \<and>
      getUint32 bytes 40 = buf_length b * numberOfChannels b * 2 \<and>
      (\<forall>i < buf_length b. \<forall>channel < numberOfChannels b.
         getInt16 bytes (44 + 2 * (i * numberOfChannels b + channel)) =
           quantize_spec (channelData b ! channel ! i))"
proof -
  let ?L = "buf_length b" and ?C = "numberOfChannels b" and ?R = "sampleRate b"
  let ?bytes = "wav_header ?L ?C ?R @ pcm_data b 0 ?L"
  from assms(1) have chans: "length (channelData b) = ?C"
    and arrays: "\<And>channel. channel < ?C \<Longrightarrow> length (channelData b ! channel) = ?L"
    by (simp_all add: wf_buffer_def list_all_length)
  have run: "audioBufferToCompressedAudio maxByteLength b = Some ?bytes"
    using assms(2) by (simp add: serializer_bytes [OF chans])
  have len: "length ?bytes = 44 + ?L * ?C * 2"
    by simp
  have u16: "unat (of_nat x :: 16 word) = x" if "x < 2 ^ 16" for x
    using that by (simp add: unat_of_nat)
  have u32: "unat (of_nat x :: 32 word) = x" if "x < 2 ^ 32" for x
    using that by (simp add: unat_of_nat)
  from assms(6) have "?C < 2 ^ 16" by simp
  note c16 = u16 [OF this] u16 [OF assms(6)]
  note c32 = u32 [OF assms(4)] u32 [OF assms(5)] u32 [OF assms(3)]
  have samples: "getInt16 ?bytes (44 + 2 * (i * ?C + channel)) =
      quantize_spec (channelData b ! channel ! i)"
    if "i < ?L" "channel < ?C" for i channel
    using getInt16_pcm_data [OF that, of "wav_header ?L ?C ?R"] arrays [OF that(2)] that(1)
    by (simp add: float32_at_def)
  show ?thesis
    using run len samples
    by (intro exI [of _ ?bytes] conjI allI impI)
      (simp_all only: header_markers header_fields16 header_fields32 c16 c32)
qed


text \<open>
  The theorem at a buffer of two frames and two channels: the four samples 0.5, -0.3, -2
  and NaN are written as 16383, -9830, -32768 and 0.
\<close>

theorem wav_container_layout_witness:
  "let b = \<lparr>buf_length = 2, numberOfChannels = 2, sampleRate = 44100,
             channelData = [[Fin (1 / 2), Fin (- 2)], [Fin (- 3 / 10), NaN]]\<rparr>
   in wf_buffer b \<and>
      (\<exists>bytes. audioBufferToCompressedAudio 1000 b = Some bytes \<and>
         length bytes = 52 \<and>
         take 4 bytes = char_codes ''RIFF'' \<and>
         getUint16 bytes 20 = 1 \<and>
         getUint16 bytes 22 = 2 \<and>
         getUint32 bytes 24 = 44100 \<and>
         getUint32 bytes 28 = 176400 \<and>
         getUint16 bytes 32 = 4 \<and>
         getUint16 bytes 34 = 16 \<and>
         getUint32 bytes 40 = 8 \<and>
         getInt16 bytes 44 = 16383 \<and>
         getInt16 bytes 46 = - 9830 \<and>
         getInt16 bytes 48 = - 32768 \<and>
         getInt16 bytes 50 = 0)"
proof -
  let ?b = "\<lparr>buf_length = 2, numberOfChannels = 2, sampleRate = 44100,
             channelData = [[Fin (1 / 2), Fin (- 2)], [Fin (- 3 / 10), NaN]]\<rparr>"
  have wf: "wf_buffer ?b"
    by (simp add: wf_buffer_def)
  have "\<exists>bytes. audioBufferToCompressedAudio 1000 ?b = Some bytes \<and>
         length bytes = 52 \<and>
         take 4 bytes = char_codes ''RIFF'' \<and>
         getUint16 bytes 20 = 1 \<and>
         getUint16 bytes 22 = 2 \<and>
         getUint32 bytes 24 = 44100 \<and>
         getUint32 bytes 28 = 176400 \<and>
         getUint16 bytes 32 = 4 \<and>
         getUint16 bytes 34 = 16 \<and>
         getUint32 bytes 40 = 8 \<and>
         getInt16 bytes 44 = 16383 \<and>
         getInt16 bytes 46 = - 9830 \<and>
         getInt16 bytes 48 = - 32768 \<and>
         getInt16 bytes 50 = 0"
    using wav_container_layout [OF wf, of 1000]
    by (auto simp add: less_2_cases_iff quantize_spec_def js_trunc_def)
  with wf show ?thesis by (simp add: Let_def)
qed

text \<open>
  Claim C2 as it is stated, for every buffer, fails where the data length leaves the
  32-bit field: a stereo buffer of \<open>2 ^ 30\<close> frames (a little under seven hours at 44100 Hz)
  has \<open>2 ^ 32\<close> bytes of samples, and \<^verbatim>\<open>setUint32\<close> writes that length as 0.
\<close>

theorem wav_data_length_counterexample:
  "let b = \<lparr>buf_length = 2 ^ 30, numberOfChannels = 2, sampleRate = 44100,
             channelData = replicate 2 (replicate (2 ^ 30) (Fin 0))\<rparr>
   in wf_buffer b \<and>
      (\<exists>bytes. audioBufferToCompressedAudio (2 ^ 53) b = Some bytes \<and>
         getUint32 bytes 40 = 0 \<and>
         getUint32 bytes 40 \<noteq> buf_length b * numberOfChannels b * 2)"
proof -
  let ?b = "\<lparr>buf_length = 2 ^ 30, numberOfChannels = 2, sampleRate = 44100,
             channelData = replicate 2 (replicate (2 ^ 30) (Fin 0))\<rparr>"
  have wf: "wf_buffer ?b"
    by (simp add: wf_buffer_def list_all_length)
  have "audioBufferToCompressedAudio (2 ^ 53) ?b =
      Some (wav_header (2 ^ 30) 2 44100 @ pcm_data ?b 0 (2 ^ 30))"
    using serializer_bytes [of ?b "2 ^ 53"] by simp
  moreover have "getUint32 (wav_header (2 ^ 30) 2 44100 @ pcm_data ?b 0 (2 ^ 30)) 40 = 0"
    by (simp only: header_fields32) simp
  ultimately show ?thesis
    using wf by (simp add: Let_def)
qed

section \<open>Properties of the live graph\<close>

lemmas graph_defs = create_node_def update_node_def connect_def disconnect_def
  createMediaElementSource_def createBiquadFilter_def createGain_def
  createDynamicsCompressor_def createBufferSource_def destination_def

lemma connectAudioGraph_none [simp]:
  "audioNodesRef s = no_nodes \<Longrightarrow> connectAudioGraph b s = s"
  by (simp add: connectAudioGraph_def no_nodes_def)

lemma connectAudioGraph_live:
  assumes "audioNodesRef s = live_nodes r ch su gb gm gt es"
    and "es = [] \<or> es = full_chain 1 2 3 4 6 5 \<or> es = bypass_path 1"
  shows "connectAudioGraph b s =
     s\<lparr>audioNodesRef :=
         live_nodes r ch su gb gm gt (if b then bypass_path 1 else full_chain 1 2 3 4 6 5)\<rparr>"
  using assms(2)
  unfolding connectAudioGraph_def Let_def assms(1) live_nodes_def
  by (auto simp add: graph_defs full_chain_def bypass_path_def)

lemma initializeAudioContext_builds:
  assumes "audioRef s = Some el" and "audioContext (audioNodesRef s) = None"
  shows "initializeAudioContext (Some h) s =
     s\<lparr>audioNodesRef :=
         live_nodes (hw_sampleRate h) (hw_channelCount h) (hw_suspended h) 0 0 0
           (full_chain 1 2 3 4 6 5)\<rparr>"
proof -
  have "initializeAudioContext (Some h) s =
      connectAudioGraph False
        (s\<lparr>audioNodesRef :=
             live_nodes (hw_sampleRate h) (hw_channelCount h) (hw_suspended h) 0 0 0 []\<rparr>)"
    using assms
    unfolding initializeAudioContext_def Let_def case_prod_beta live_nodes_def
    by (simp add: graph_defs new_AudioContext_def eval_nat_numeral)
  then show ?thesis
    by (simp add: connectAudioGraph_live [where es = "[]"])
qed

lemma initializeAudioContext_again:
  "audioContext (audioNodesRef s) \<noteq> None \<Longrightarrow> initializeAudioContext hw s = s"
  by (simp add: initializeAudioContext_def)

lemma initializeAudioContext_throws [simp]:
  "initializeAudioContext None s = s"
  by (simp add: initializeAudioContext_def)

lemma applyEQSettings_none [simp]:
  "audioNodesRef s = no_nodes \<Longrightarrow> applyEQSettings s = s"
  by (simp add: applyEQSettings_def no_nodes_def)

lemma applyEQSettings_live:
  assumes "audioNodesRef s = live_nodes r ch su gb gm gt es"
  shows "applyEQSettings s =
     s\<lparr>audioNodesRef :=
         live_nodes r ch su (bass (eqSettings s)) (mid (eqSettings s)) (treble (eqSettings s))
           es\<rparr>"
  unfolding applyEQSettings_def Let_def assms live_nodes_def
  by (simp add: graph_defs)

lemma live_nodes_context [simp]:
  "audioContext (live_nodes r ch su gb gm gt es) \<noteq> None"
  "live_nodes r ch su gb gm gt es \<noteq> no_nodes"
  by (simp_all add: live_nodes_def no_nodes_def)

lemma resume_context_none [simp]:
  "audioNodesRef s = no_nodes \<Longrightarrow> resume_context s = s"
  by (simp add: resume_context_def no_nodes_def)

lemma resume_context_frame [simp]:
  "bypass (resume_context s) = bypass s"
  "audioRef (resume_context s) = audioRef s"
  "eqSettings (resume_context s) = eqSettings s"
  by (simp_all add: resume_context_def split: option.splits)

lemma resume_context_live:
  assumes "audioNodesRef s = live_nodes r ch su gb gm gt es"
  shows "audioNodesRef (resume_context s) = live_nodes r ch False gb gm gt es"
  using assms by (cases su) (simp_all add: resume_context_def live_nodes_def)

lemma handleFileUpload_frame [simp]:
  "audioNodesRef (handleFileUpload f s) = audioNodesRef s"
  "bypass (handleFileUpload f s) = bypass s"
  "eqSettings (handleFileUpload f s) = eqSettings s"
  "(audioRef (handleFileUpload f s) = None) = (audioRef s = None)"
  by (simp_all add: handleFileUpload_def createObjectURL_def revokeObjectURL_def Let_def
      split: option.splits)

lemma saveAudio_frame [simp]:
  "audioNodesRef (fst (saveAudio p s)) = audioNodesRef s"
  "bypass (fst (saveAudio p s)) = bypass s"
  "eqSettings (fst (saveAudio p s)) = eqSettings s"
  "audioRef (fst (saveAudio p s)) = audioRef s"
  "isPlaying (fst (saveAudio p s)) = isPlaying s"
  "currentFile (fst (saveAudio p s)) = currentFile s"
  "objectUrlRef (fst (saveAudio p s)) = objectUrlRef s"
  by (simp_all add: saveAudio_def createObjectURL_def revokeObjectURL_def Let_def
      split: option.splits)

lemma stopAudio_frame [simp]:
  "audioNodesRef (stopAudio s) = audioNodesRef s"
  "bypass (stopAudio s) = bypass s"
  "eqSettings (stopAudio s) = eqSettings s"
  "(audioRef (stopAudio s) = None) = (audioRef s = None)"
  by (simp_all add: stopAudio_def split: option.splits)

lemma updateEQValue_frame [simp]:
  "audioNodesRef (updateEQValue k [v] s) = audioNodesRef s"
  "bypass (updateEQValue k [v] s) = bypass s"
  "audioRef (updateEQValue k [v] s) = audioRef s"
  by (cases k; simp)+

lemma resetEQ_frame [simp]:
  "audioNodesRef (resetEQ s) = audioNodesRef s"
  "bypass (resetEQ s) = bypass s"
  "audioRef (resetEQ s) = audioRef s"
  by (simp_all add: resetEQ_def)

lemma wired_intro_live:
  "audioRef s \<noteq> None \<Longrightarrow> audioNodesRef s = live_nodes r ch su gb gm gt es \<Longrightarrow>
   es = full_chain 1 2 3 4 6 5 \<or> bypass s \<and> es = bypass_path 1 \<Longrightarrow> wired s"
  unfolding wired_def by blast

lemma wired_cases:
  assumes "wired s"
  obtains (none) "audioRef s \<noteq> None" "audioNodesRef s = no_nodes"
  | (live) r ch su gb gm gt es where "audioRef s \<noteq> None"
      "audioNodesRef s = live_nodes r ch su gb gm gt es"
      "es = full_chain 1 2 3 4 6 5 \<or> bypass s \<and> es = bypass_path 1"
  using assms unfolding wired_def by blast

lemma initializeAudioContext_frame [simp]:
  "bypass (initializeAudioContext hw s) = bypass s"
  "audioRef (initializeAudioContext hw s) = audioRef s"
  "eqSettings (initializeAudioContext hw s) = eqSettings s"
proof -
  have "bypass (initializeAudioContext hw s) = bypass s \<and>
      audioRef (initializeAudioContext hw s) = audioRef s \<and>
      eqSettings (initializeAudioContext hw s) = eqSettings s"
  proof (cases "audioRef s = None \<or> audioContext (audioNodesRef s) \<noteq> None \<or> hw = None")
    case True
    then show ?thesis by (auto simp add: initializeAudioContext_def)
  next
    case False
    then obtain el h where "audioRef s = Some el" "audioContext (audioNodesRef s) = None"
      "hw = Some h" by auto
    then show ?thesis by (simp add: initializeAudioContext_builds)
  qed
  then show "bypass (initializeAudioContext hw s) = bypass s"
    "audioRef (initializeAudioContext hw s) = audioRef s"
    "eqSettings (initializeAudioContext hw s) = eqSettings s" by simp_all
qed

lemma togglePlayPause_nodes:
  assumes "audioRef s \<noteq> None"
  shows "audioNodesRef (togglePlayPause hw ok s) =
      audioNodesRef (resume_context (initializeAudioContext hw s))"
    and "bypass (togglePlayPause hw ok s) = bypass s"
    and "eqSettings (togglePlayPause hw ok s) = eqSettings s"
    and "audioRef (togglePlayPause hw ok s) \<noteq> None"
proof -
  from assms obtain el where "audioRef s = Some el" by auto
  then show "audioNodesRef (togglePlayPause hw ok s) =
      audioNodesRef (resume_context (initializeAudioContext hw s))"
    and "bypass (togglePlayPause hw ok s) = bypass s"
    and "eqSettings (togglePlayPause hw ok s) = eqSettings s"
    and "audioRef (togglePlayPause hw ok s) \<noteq> None"
    by (simp_all add: togglePlayPause_def Let_def)
qed

lemma wired_initialize:
  assumes "wired s"
  shows "wired (initializeAudioContext hw s)"
  using assms
proof (cases rule: wired_cases)
  case none
  show ?thesis
  proof (cases hw)
    case None
    with assms show ?thesis by simp
  next
    case (Some h)
    from none obtain el where el: "audioRef s = Some el" by auto
    from none have "audioContext (audioNodesRef s) = None" by (simp add: no_nodes_def)
    from initializeAudioContext_builds [OF el this, of h] Some none show ?thesis
      by (intro wired_intro_live [where es = "full_chain 1 2 3 4 6 5"]) simp_all
  qed
next
  case (live r ch su gb gm gt es)
  then have "initializeAudioContext hw s = s"
    by (intro initializeAudioContext_again) simp
  with assms show ?thesis by simp
qed

lemma wired_resume:
  assumes "wired s"
  shows "wired (resume_context s)"
  using assms
proof (cases rule: wired_cases)
  case none
  with assms show ?thesis by simp
next
  case (live r ch su gb gm gt es)
  from resume_context_live [OF live(2)] live(1,3) show ?thesis
    by (intro wired_intro_live [where es = es and su = False]) simp_all
qed

lemma wired_step:
  assumes "wired s"
  shows "wired (step e s)"
proof (cases e)
  case (FileUpload f)
  with assms show ?thesis by (simp add: wired_def)
next
  case (TogglePlayPause hw ok)
  from assms have el: "audioRef s \<noteq> None" by (simp add: wired_def)
  have "wired (resume_context (initializeAudioContext hw s))"
    using assms by (intro wired_resume wired_initialize)
  with togglePlayPause_nodes [OF el, of hw ok] TogglePlayPause show ?thesis
    by (simp add: wired_def)
next
  case StopAudio
  with assms show ?thesis by (simp add: wired_def)
next
  case ToggleBypass
  from assms show ?thesis
  proof (cases rule: wired_cases)
    case none
    with ToggleBypass show ?thesis by (simp add: wired_def)
  next
    case (live r ch su gb gm gt es)
    let ?s = "s\<lparr>bypass := \<not> bypass s\<rparr>"
    from live have "audioNodesRef ?s = live_nodes r ch su gb gm gt es"
      and "es = [] \<or> es = full_chain 1 2 3 4 6 5 \<or> es = bypass_path 1"
      by auto
    from connectAudioGraph_live [OF this, of "\<not> bypass s"] live(1) ToggleBypass
    show ?thesis
      by (intro wired_intro_live
          [where es = "if \<not> bypass s then bypass_path 1 else full_chain 1 2 3 4 6 5"])
        simp_all
  qed
next
  case (UpdateEQ k v)
  let ?s = "updateEQValue k [v] s"
  from assms have w: "wired ?s" by (simp add: wired_def)
  then have "wired (applyEQSettings ?s)"
  proof (cases rule: wired_cases)
    case none
    with w show ?thesis by simp
  next
    case (live r ch su gb gm gt es)
    from applyEQSettings_live [OF live(2)] live(1,3) show ?thesis
      by (intro wired_intro_live [where es = es]) simp_all
  qed
  with UpdateEQ show ?thesis by simp
next
  case ResetEQ
  let ?s = "resetEQ s"
  from assms have w: "wired ?s" by (simp add: wired_def)
  then have "wired (applyEQSettings ?s)"
  proof (cases rule: wired_cases)
    case none
    with w show ?thesis by simp
  next
    case (live r ch su gb gm gt es)
    from applyEQSettings_live [OF live(2)] live(1,3) show ?thesis
      by (intro wired_intro_live [where es = es]) simp_all
  qed
  with ResetEQ show ?thesis by simp
next
  case (SaveAudio p)
  with assms show ?thesis by (simp add: wired_def)
next
  case ResumeAudio
  with assms show ?thesis by (simp add: wired_resume)
qed

lemma run_snoc [simp]: "run (events @ [e]) s = step e (run events s)"
  by (simp add: run_def)

lemma run_Nil [simp]: "run [] s = s"
  by (simp add: run_def)

lemma run_Cons: "run (e # events) s = run events (step e s)"
  by (simp add: run_def)

lemma wired_initial: "wired initial_state"
  by (simp add: wired_def initial_state_def)

lemma wired_run: "wired (run events initial_state)"
  by (induction events rule: rev_induct) (simp_all add: wired_initial wired_step)


lemma populated_live [simp]: "populated (live_nodes r ch su gb gm gt es)"
  by (simp add: populated_def live_nodes_def)

lemma not_populated_none [simp]: "\<not> populated no_nodes"
  by (simp add: populated_def no_nodes_def)

lemma processing_chain_live:
  "processing_chain (the (audioContext (live_nodes r ch su gb gm gt (full_chain 1 2 3 4 6 5))))
     1 2 3 4 6 5"
  by (simp add: processing_chain_def live_nodes_def destination_def)

lemma live_handles [simp]:
  "source (live_nodes r ch su gb gm gt es) = Some 1"
  "bassFilter (live_nodes r ch su gb gm gt es) = Some 2"
  "midFilter (live_nodes r ch su gb gm gt es) = Some 3"
  "trebleFilter (live_nodes r ch su gb gm gt es) = Some 4"
  "masterGain (live_nodes r ch su gb gm gt es) = Some 5"
  "comp_node (live_nodes r ch su gb gm gt es) = Some 6"
  by (simp_all add: live_nodes_def)

lemma offline_graph_built:
  assumes "nodes c = [Destination]" and "edges c = []"
  shows "fst (offline_graph eq c) = 1"
    and "edges (snd (offline_graph eq c)) = full_chain 1 2 3 4 6 5"
    and "nodes (snd (offline_graph eq c)) =
      [Destination, BufferSource None False,
       BiquadFilter \<lparr>filter_type = Lowshelf, frequency = 100, Q = 1, gain = bass eq\<rparr>,
       BiquadFilter \<lparr>filter_type = Peaking, frequency = 1000, Q = 1, gain = mid eq\<rparr>,
       BiquadFilter \<lparr>filter_type = Highshelf, frequency = 8000, Q = 1, gain = treble eq\<rparr>,
       Gain 0.85,
       DynamicsCompressor
         \<lparr>threshold = - 12, knee = 6, ratio = 3, attack = 0.003, release = 0.25\<rparr>]"
    and "oc_numberOfChannels (snd (offline_graph eq c)) = oc_numberOfChannels c"
    and "oc_length (snd (offline_graph eq c)) = oc_length c"
    and "oc_sampleRate (snd (offline_graph eq c)) = oc_sampleRate c"
  unfolding offline_graph_def Let_def case_prod_beta
  by (simp_all add: graph_defs assms full_chain_def eval_nat_numeral)

lemma new_OfflineAudioContext_Some:
  assumes "new_OfflineAudioContext channels len rate = Some c"
  shows "nodes c = [Destination]" "edges c = []" "oc_numberOfChannels c = channels"
    "oc_length c = unat (ToUint32 len)" "oc_sampleRate c = rate"
    "channels \<noteq> 0" "unat (ToUint32 len) \<noteq> 0" "rate \<noteq> 0"
  using assms by (auto simp add: new_OfflineAudioContext_def split: if_splits)

text \<open>
  Claim C1. In every state that a sequence of events leads to in which the nodes exist
  and bypass is off, the live graph is the chain source, bass low-shelf, mid peaking,
  treble high-shelf, compressor, master gain, destination with the fixed parameters
  (100 Hz; 1000 Hz and Q = 1; 8000 Hz; -12 dB, knee 6 dB, ratio 3, attack 0.003 s,
  release 0.25 s; gain 0.85), fed by the audio element; and the graph that \<^verbatim>\<open>saveAudio\<close>
  builds in an offline context is the same chain with the same parameters, fed by a
  buffer source.
\<close>

theorem fixed_signal_chain:
  "(populated (audioNodesRef (run events initial_state)) \<and>
    \<not> bypass (run events initial_state) \<longrightarrow>
      processing_chain (the (audioContext (audioNodesRef (run events initial_state))))
        (the (source (audioNodesRef (run events initial_state))))
        (the (bassFilter (audioNodesRef (run events initial_state))))
        (the (midFilter (audioNodesRef (run events initial_state))))
        (the (trebleFilter (audioNodesRef (run events initial_state))))
        (the (comp_node (audioNodesRef (run events initial_state))))
        (the (masterGain (audioNodesRef (run events initial_state)))) \<and>
      nodes (the (audioContext (audioNodesRef (run events initial_state)))) !
        the (source (audioNodesRef (run events initial_state))) = MediaElementSource) \<and>
   (new_OfflineAudioContext channels len rate = Some c \<longrightarrow>
      processing_chain (snd (offline_graph eq c)) (fst (offline_graph eq c)) 2 3 4 6 5 \<and>
      nodes (snd (offline_graph eq c)) ! fst (offline_graph eq c) = BufferSource None False)"
proof (intro conjI impI)
  let ?s = "run events initial_state"
  assume live: "populated (audioNodesRef ?s) \<and> \<not> bypass ?s"
  from wired_run [of events] live obtain r ch su gb gm gt
    where n: "audioNodesRef ?s = live_nodes r ch su gb gm gt (full_chain 1 2 3 4 6 5)"
    by (cases rule: wired_cases) auto
  show "processing_chain (the (audioContext (audioNodesRef ?s)))
        (the (source (audioNodesRef ?s))) (the (bassFilter (audioNodesRef ?s)))
        (the (midFilter (audioNodesRef ?s))) (the (trebleFilter (audioNodesRef ?s)))
        (the (comp_node (audioNodesRef ?s))) (the (masterGain (audioNodesRef ?s)))"
    unfolding n using processing_chain_live [of r ch su gb gm gt] by simp
  show "nodes (the (audioContext (audioNodesRef ?s))) ! the (source (audioNodesRef ?s)) =
      MediaElementSource"
    unfolding n by (simp add: live_nodes_def)
next
  assume "new_OfflineAudioContext channels len rate = Some c"
  note fresh = new_OfflineAudioContext_Some(1,2) [OF this]
  note built = offline_graph_built(1-3) [OF fresh, of eq]
  show "processing_chain (snd (offline_graph eq c)) (fst (offline_graph eq c)) 2 3 4 6 5"
    by (simp add: processing_chain_def built destination_def)
  show "nodes (snd (offline_graph eq c)) ! fst (offline_graph eq c) = BufferSource None False"
    by (simp add: built)
qed

lemma first_play:
  assumes "audioRef s \<noteq> None" and "audioNodesRef s = no_nodes"
  shows "audioNodesRef (togglePlayPause (Some h) ok s) =
     live_nodes (hw_sampleRate h) (hw_channelCount h) False 0 0 0 (full_chain 1 2 3 4 6 5)"
proof -
  from assms obtain el where el: "audioRef s = Some el" by auto
  from assms have "audioContext (audioNodesRef s) = None" by (simp add: no_nodes_def)
  from initializeAudioContext_builds [OF el this, of h]
  have "audioNodesRef (initializeAudioContext (Some h) s) =
      live_nodes (hw_sampleRate h) (hw_channelCount h) (hw_suspended h) 0 0 0
        (full_chain 1 2 3 4 6 5)"
    by simp
  from resume_context_live [OF this] togglePlayPause_nodes(1) [OF assms(1)]
  show ?thesis by simp
qed

lemma initial_state_fields [simp]:
  "audioRef initial_state \<noteq> None" "audioNodesRef initial_state = no_nodes"
  "bypass initial_state = False" "eqSettings initial_state = \<lparr>bass = 0, mid = 0, treble = 0\<rparr>"
  "objectUrlRef initial_state = None" "url_log initial_state = []" "next_url initial_state = 0"
  by (simp_all add: initial_state_def)

theorem fixed_signal_chain_witness:
  "populated (audioNodesRef
      (run [FileUpload (Some sample_file), TogglePlayPause (Some sample_hardware) True]
         initial_state)) \<and>
   \<not> bypass (run [FileUpload (Some sample_file), TogglePlayPause (Some sample_hardware) True]
         initial_state) \<and>
   topology (run [FileUpload (Some sample_file), TogglePlayPause (Some sample_hardware) True]
         initial_state) = [(1, 2), (2, 3), (3, 4), (4, 6), (6, 5), (5, 0)] \<and>
   new_OfflineAudioContext 2 (Fin 88200) 44100 =
     Some \<lparr>nodes = [Destination], edges = [], oc_numberOfChannels = 2, oc_length = 88200,
           oc_sampleRate = 44100\<rparr> \<and>
   edges (snd (offline_graph \<lparr>bass = 10, mid = 0, treble = - 5\<rparr>
     \<lparr>nodes = [Destination], edges = [], oc_numberOfChannels = 2, oc_length = 88200,
      oc_sampleRate = 44100\<rparr>)) = [(1, 2), (2, 3), (3, 4), (4, 6), (6, 5), (5, 0)]"
proof -
  let ?events = "[FileUpload (Some sample_file), TogglePlayPause (Some sample_hardware) True]"
  let ?s = "run ?events initial_state"
  let ?c = "\<lparr>nodes = [Destination], edges = [], oc_numberOfChannels = 2,
              oc_length = 88200, oc_sampleRate = 44100\<rparr>"
  let ?eq = "\<lparr>bass = 10, mid = 0, treble = - 5\<rparr>"
  have n: "audioNodesRef ?s = live_nodes 44100 2 False 0 0 0 (full_chain 1 2 3 4 6 5)"
    using first_play [of "handleFileUpload (Some sample_file) initial_state" sample_hardware True]
    by (simp add: run_Cons sample_hardware_def)
  have live: "populated (audioNodesRef ?s)"
    by (simp add: n)
  have flag: "\<not> bypass ?s"
    by (simp add: run_Cons togglePlayPause_nodes)
  have offline: "new_OfflineAudioContext 2 (Fin 88200) 44100 = Some ?c"
    by (simp add: new_OfflineAudioContext_def js_trunc_def)
  from fixed_signal_chain [of ?events 2 "Fin 88200" 44100 ?c ?eq] live flag offline
  have "processing_chain (the (audioContext (audioNodesRef ?s)))
        (the (source (audioNodesRef ?s))) (the (bassFilter (audioNodesRef ?s)))
        (the (midFilter (audioNodesRef ?s))) (the (trebleFilter (audioNodesRef ?s)))
        (the (comp_node (audioNodesRef ?s))) (the (masterGain (audioNodesRef ?s)))"
    and "processing_chain (snd (offline_graph ?eq ?c)) (fst (offline_graph ?eq ?c)) 2 3 4 6 5"
    by blast+
  then have "topology ?s = [(1, 2), (2, 3), (3, 4), (4, 6), (6, 5), (5, 0)]"
    and "edges (snd (offline_graph ?eq ?c)) = [(1, 2), (2, 3), (3, 4), (4, 6), (6, 5), (5, 0)]"
    by (simp_all add: processing_chain_def topology_def n full_chain_def destination_def
        offline_graph_built(1) live_nodes_def)
  with live flag offline show ?thesis by blast
qed

section \<open>Creation of the nodes, and object URLs\<close>

lemma step_live:
  assumes "audioRef s \<noteq> None" and "audioNodesRef s = live_nodes r ch su gb gm gt es"
    and "es = full_chain 1 2 3 4 6 5 \<or> es = bypass_path 1"
  shows "\<exists>su' gb' gm' gt' es'. audioNodesRef (step e s) = live_nodes r ch su' gb' gm' gt' es'"
proof (cases e)
  case (FileUpload f)
  with assms(2) have "audioNodesRef (step e s) = live_nodes r ch su gb gm gt es" by simp
  then show ?thesis by blast
next
  case (TogglePlayPause hw ok)
  from assms(2) have "initializeAudioContext hw s = s"
    by (intro initializeAudioContext_again) simp
  with togglePlayPause_nodes(1) [OF assms(1), of hw ok] resume_context_live [OF assms(2)]
    TogglePlayPause
  have "audioNodesRef (step e s) = live_nodes r ch False gb gm gt es" by simp
  then show ?thesis by blast
next
  case StopAudio
  with assms(2) have "audioNodesRef (step e s) = live_nodes r ch su gb gm gt es" by simp
  then show ?thesis by blast
next
  case ToggleBypass
  from assms have "audioNodesRef (s\<lparr>bypass := \<not> bypass s\<rparr>) = live_nodes r ch su gb gm gt es"
    and "es = [] \<or> es = full_chain 1 2 3 4 6 5 \<or> es = bypass_path 1"
    by auto
  from connectAudioGraph_live [OF this, of "\<not> bypass s"] ToggleBypass
  have "audioNodesRef (step e s) = live_nodes r ch su gb gm gt
      (if \<not> bypass s then bypass_path 1 else full_chain 1 2 3 4 6 5)" by simp
  then show ?thesis by blast
next
  case (UpdateEQ k v)
  let ?s = "updateEQValue k [v] s"
  from assms have "audioNodesRef ?s = live_nodes r ch su gb gm gt es"
    by simp
  from applyEQSettings_live [OF this] UpdateEQ
  have "audioNodesRef (step e s) = live_nodes r ch su (bass (eqSettings ?s))
      (mid (eqSettings ?s)) (treble (eqSettings ?s)) es" by simp
  then show ?thesis by blast
next
  case ResetEQ
  let ?s = "resetEQ s"
  from assms have "audioNodesRef ?s = live_nodes r ch su gb gm gt es"
    by simp
  from applyEQSettings_live [OF this] ResetEQ
  have "audioNodesRef (step e s) = live_nodes r ch su (bass (eqSettings ?s))
      (mid (eqSettings ?s)) (treble (eqSettings ?s)) es" by simp
  then show ?thesis by blast
next
  case (SaveAudio p)
  with assms(2) have "audioNodesRef (step e s) = live_nodes r ch su gb gm gt es" by simp
  then show ?thesis by blast
next
  case ResumeAudio
  with resume_context_live [OF assms(2)]
  have "audioNodesRef (step e s) = live_nodes r ch False gb gm gt es" by simp
  then show ?thesis by blast
qed

lemma step_none:
  assumes "audioNodesRef s = no_nodes" and "\<forall>hw ok. e \<noteq> TogglePlayPause hw ok"
  shows "audioNodesRef (step e s) = no_nodes"
proof (cases e)
  case (TogglePlayPause hw ok)
  with assms(2) show ?thesis by blast
qed (use assms(1) in simp_all)

lemma handles_live [simp]:
  "handles (live_nodes r ch su gb gm gt es) = (Some 1, Some 2, Some 3, Some 4, Some 5, Some 6)"
  by (simp add: handles_def)

lemma nodes_live [simp]:
  "length (nodes (the (audioContext (live_nodes r ch su gb gm gt es)))) = 7"
  by (simp add: live_nodes_def)

text \<open>
  Claim C9. After every sequence of events the AudioNodes are all null or all set.
  \<^verbatim>\<open>initializeAudioContext\<close> changes nothing in a state that has a context. Once the
  nodes are set, no event changes a handle or creates a node. While the nodes are null,
  only a playback attempt sets them, and the first attempt on which the platform gives a
  context does.
\<close>

theorem audio_nodes_all_or_nothing:
  "(audioNodesRef (run events initial_state) = no_nodes \<or>
    populated (audioNodesRef (run events initial_state))) \<and>
   (audioContext (audioNodesRef s) \<noteq> None \<longrightarrow> initializeAudioContext hw s = s) \<and>
   (populated (audioNodesRef (run events initial_state)) \<longrightarrow>
      handles (audioNodesRef (step e (run events initial_state))) =
        handles (audioNodesRef (run events initial_state)) \<and>
      length (nodes (the (audioContext (audioNodesRef (step e (run events initial_state)))))) =
        length (nodes (the (audioContext (audioNodesRef (run events initial_state)))))) \<and>
   (audioNodesRef (run events initial_state) = no_nodes \<and>
    (\<forall>hw ok. e \<noteq> TogglePlayPause hw ok) \<longrightarrow>
      audioNodesRef (step e (run events initial_state)) = no_nodes) \<and>
   (audioNodesRef (run events initial_state) = no_nodes \<longrightarrow>
      populated (audioNodesRef (step (TogglePlayPause (Some h) ok) (run events initial_state))))"
proof -
  let ?s = "run events initial_state"
  have w: "wired ?s" by (rule wired_run)
  then have el: "audioRef ?s \<noteq> None" by (simp add: wired_def)
  have one: "audioNodesRef ?s = no_nodes \<or> populated (audioNodesRef ?s)"
    using w by (cases rule: wired_cases) simp_all
  have two: "audioContext (audioNodesRef s) \<noteq> None \<longrightarrow> initializeAudioContext hw s = s"
    by (simp add: initializeAudioContext_again)
  have three: "handles (audioNodesRef (step e ?s)) = handles (audioNodesRef ?s) \<and>
      length (nodes (the (audioContext (audioNodesRef (step e ?s))))) =
        length (nodes (the (audioContext (audioNodesRef ?s))))"
    if "populated (audioNodesRef ?s)"
    using w
  proof (cases rule: wired_cases)
    case none
    with that show ?thesis by simp
  next
    case (live r ch su gb gm gt es)
    then have "es = full_chain 1 2 3 4 6 5 \<or> es = bypass_path 1" by auto
    from step_live [OF live(1,2) this, of e] live(2) show ?thesis by auto
  qed
  have four: "audioNodesRef (step e ?s) = no_nodes"
    if "audioNodesRef ?s = no_nodes \<and> (\<forall>hw ok. e \<noteq> TogglePlayPause hw ok)"
    using that by (intro step_none) simp_all
  have five: "populated (audioNodesRef (step (TogglePlayPause (Some h) ok) ?s))"
    if "audioNodesRef ?s = no_nodes"
    using first_play [OF el that, of h ok] by simp
  from one two three four five show ?thesis by blast
qed

theorem audio_nodes_all_or_nothing_witness:
  "audioNodesRef (run [FileUpload (Some sample_file)] initial_state) = no_nodes \<and>
   populated (audioNodesRef
     (step (TogglePlayPause (Some sample_hardware) True)
        (run [FileUpload (Some sample_file)] initial_state))) \<and>
   populated (audioNodesRef
     (run [FileUpload (Some sample_file), TogglePlayPause (Some sample_hardware) True]
        initial_state)) \<and>
   handles (audioNodesRef
     (step (TogglePlayPause (Some sample_hardware) True)
        (run [FileUpload (Some sample_file), TogglePlayPause (Some sample_hardware) True]
           initial_state))) =
     (Some 1, Some 2, Some 3, Some 4, Some 5, Some 6)"
proof -
  let ?one = "[FileUpload (Some sample_file)]"
  let ?two = "[FileUpload (Some sample_file), TogglePlayPause (Some sample_hardware) True]"
  let ?again = "TogglePlayPause (Some sample_hardware) True"
  have none: "audioNodesRef (run ?one initial_state) = no_nodes"
    by (simp add: run_Cons)
  from audio_nodes_all_or_nothing [of ?one _ _ ?again sample_hardware True] none
  have first: "populated (audioNodesRef (step ?again (run ?one initial_state)))"
    by blast
  then have built: "populated (audioNodesRef (run ?two initial_state))"
    by (simp add: run_Cons)
  have "handles (audioNodesRef (run ?two initial_state)) =
      (Some 1, Some 2, Some 3, Some 4, Some 5, Some 6)"
    using first_play [of "handleFileUpload (Some sample_file) initial_state" sample_hardware True]
    by (simp add: run_Cons)
  with audio_nodes_all_or_nothing [of ?two _ _ ?again] built
  have "handles (audioNodesRef (step ?again (run ?two initial_state))) =
      (Some 1, Some 2, Some 3, Some 4, Some 5, Some 6)"
    by metis
  with none first built show ?thesis by blast
qed


lemma released_in_turn_Suc:
  "released_in_turn (Suc n) = released_in_turn n @ [CreateObjectURL n, RevokeObjectURL n]"
  by (simp add: released_in_turn_def)

lemma uploaded_handleFileUpload:
  assumes "uploaded n s"
  shows "uploaded (if selected = None then n else Suc n) (handleFileUpload selected s)"
proof (cases selected)
  case None
  with assms show ?thesis by (simp add: handleFileUpload_def)
next
  case (Some f)
  from assms obtain el where el: "audioRef s = Some el" by (auto simp add: uploaded_def)
  show ?thesis
  proof (cases n)
    case 0
    with assms Some el show ?thesis
      by (simp add: uploaded_def handleFileUpload_def createObjectURL_def Let_def
          released_in_turn_def)
  next
    case (Suc k)
    with assms Some el show ?thesis
      by (simp add: uploaded_def handleFileUpload_def createObjectURL_def revokeObjectURL_def
          Let_def released_in_turn_Suc)
  qed
qed

lemma uploaded_run:
  "uploaded (length (filter (\<lambda>f. f \<noteq> None) selections))
     (run (map FileUpload selections) initial_state)"
proof (induction selections rule: rev_induct)
  case Nil
  show ?case by (simp add: uploaded_def)
next
  case (snoc f selections)
  from uploaded_handleFileUpload [OF snoc.IH, of f] show ?case
    by (cases f) simp_all
qed

text \<open>
  Claim C8. For every sequence of file selections (a selection may be cancelled, which
  selects no file), the calls that create and revoke object URLs up to and including the
  cleanup of the component are: the first URL created, then revoked; the second created,
  then revoked; and so on, one pair for every file loaded. So every URL is revoked
  exactly once, before the next one is created, and the last one at teardown.
\<close>

theorem object_urls_released_in_turn:
  "url_log (unmount (run (map FileUpload selections) initial_state)) =
     released_in_turn (length (filter (\<lambda>f. f \<noteq> None) selections))"
proof -
  let ?n = "length (filter (\<lambda>f. f \<noteq> None) selections)"
  have up: "uploaded ?n (run (map FileUpload selections) initial_state)"
    by (rule uploaded_run)
  show ?thesis
  proof (cases ?n)
    case 0
    with up show ?thesis
      by (simp add: uploaded_def unmount_def released_in_turn_def)
  next
    case (Suc k)
    with up show ?thesis
      by (simp add: uploaded_def unmount_def revokeObjectURL_def released_in_turn_Suc)
  qed
qed

section \<open>Properties of the export\<close>

lemma rendered_buffer_hardware:
  "channelCount c = channelCount c' \<Longrightarrow> ctx_sampleRate c = ctx_sampleRate c' \<Longrightarrow>
   rendered_buffer p eq el c = rendered_buffer p eq el c'"
  by (simp add: rendered_buffer_def)

lemma saveAudio_guard:
  "audioRef s = None \<or> audioContext (audioNodesRef s) = None \<Longrightarrow>
   saveAudio p s = (s, [Alert ''Please load an audio file first''])"
  by (simp add: saveAudio_def)

lemma saveAudio_caught:
  assumes "audioRef s = Some el" and "audioContext (audioNodesRef s) = Some c"
    and "rendered_buffer p (eqSettings s) el c \<bind>
           audioBufferToCompressedAudio (max_byte_length p) = None"
  shows "saveAudio p s =
     (s, [ConsoleError ''Error saving audio:'', Alert ''Error saving audio. Please try again.''])"
  using assms by (simp add: saveAudio_def)

lemma saveAudio_download:
  assumes "audioRef s = Some el" and "audioContext (audioNodesRef s) = Some c"
    and "rendered_buffer p (eqSettings s) el c \<bind>
           audioBufferToCompressedAudio (max_byte_length p) = Some blob"
  shows "snd (saveAudio p s) = [Download (''processed_'' @ currentFile s) blob]"
  using assms by (simp add: saveAudio_def createObjectURL_def Let_def)

lemma saveAudio_effects:
  "snd (saveAudio p s) =
     (if audioRef s = None \<or> audioContext (audioNodesRef s) = None
      then [Alert ''Please load an audio file first'']
      else case rendered_buffer p (eqSettings s) (the (audioRef s))
               (the (audioContext (audioNodesRef s))) \<bind>
             audioBufferToCompressedAudio (max_byte_length p)
           of None \<Rightarrow>
               [ConsoleError ''Error saving audio:'',
                Alert ''Error saving audio. Please try again.'']
            | Some blob \<Rightarrow> [Download (''processed_'' @ currentFile s) blob])"
  by (simp add: saveAudio_def createObjectURL_def Let_def split: option.splits)

lemma connectAudioGraph_frame [simp]:
  "audioRef (connectAudioGraph b s) = audioRef s"
  "eqSettings (connectAudioGraph b s) = eqSettings s"
  "currentFile (connectAudioGraph b s) = currentFile s"
  "bypass (connectAudioGraph b s) = bypass s"
  by (simp_all add: connectAudioGraph_def Let_def)

lemma connect_frame [simp]:
  "channelCount (connect x y c) = channelCount c"
  "ctx_sampleRate (connect x y c) = ctx_sampleRate c"
  "channelCount (disconnect x c) = channelCount c"
  "ctx_sampleRate (disconnect x c) = ctx_sampleRate c"
  by (simp_all add: connect_def disconnect_def)

lemma connectAudioGraph_hardware:
  "(audioContext (audioNodesRef (connectAudioGraph b s)) = None) =
     (audioContext (audioNodesRef s) = None)"
  "channelCount (the (audioContext (audioNodesRef (connectAudioGraph b s)))) =
     channelCount (the (audioContext (audioNodesRef s)))"
  "ctx_sampleRate (the (audioContext (audioNodesRef (connectAudioGraph b s)))) =
     ctx_sampleRate (the (audioContext (audioNodesRef s)))"
  unfolding connectAudioGraph_def Let_def by simp_all

text \<open>
  Claim C10. What \<^verbatim>\<open>saveAudio\<close> shows and downloads does not depend on bypass: it is
  the same after the bypass button has been pressed (which sets the flag and rewires the
  live graph), and the same in a state that differs in the flag alone.
\<close>

theorem export_independent_of_bypass:
  "snd (saveAudio p (step ToggleBypass s)) = snd (saveAudio p s) \<and>
   snd (saveAudio p (s\<lparr>bypass := b\<rparr>)) = snd (saveAudio p s)"
proof
  let ?t = "connectAudioGraph (\<not> bypass s) (s\<lparr>bypass := \<not> bypass s\<rparr>)"
  have same: "rendered_buffer p eq el (the (audioContext (audioNodesRef ?t))) =
        rendered_buffer p eq el (the (audioContext (audioNodesRef s)))" for eq el
    using connectAudioGraph_hardware(2,3) [of "\<not> bypass s" "s\<lparr>bypass := \<not> bypass s\<rparr>"]
    by (intro rendered_buffer_hardware) simp_all
  have none: "(audioContext (audioNodesRef ?t) = None) =
      (audioContext (audioNodesRef s) = None)"
    using connectAudioGraph_hardware(1) [of "\<not> bypass s" "s\<lparr>bypass := \<not> bypass s\<rparr>"]
    by simp
  show "snd (saveAudio p (step ToggleBypass s)) = snd (saveAudio p s)"
    by (simp add: saveAudio_effects same none cong: option.case_cong)
  show "snd (saveAudio p (s\<lparr>bypass := b\<rparr>)) = snd (saveAudio p s)"
    by (simp add: saveAudio_effects cong: option.case_cong)
qed

lemma rendered_buffer_stage_failures:
  "fetch p (src el) = None \<Longrightarrow> rendered_buffer p eq el c = None"
  "\<forall>bytes. fetch p (src el) = Some bytes \<longrightarrow> decodeAudioData p (ctx_sampleRate c) bytes = None
     \<Longrightarrow> rendered_buffer p eq el c = None"
  "\<forall>oc. engine p oc = None \<Longrightarrow> rendered_buffer p eq el c = None"
  by (auto simp add: rendered_buffer_def startRendering_def new_OfflineAudioContext_def
      offline_graph_built(6) case_prod_beta
      split: Option.bind_splits if_splits)

lemma no_playback_no_nodes:
  "\<forall>hw ok. TogglePlayPause hw ok \<notin> set events \<Longrightarrow>
   audioNodesRef (run events initial_state) = no_nodes"
proof (induction events rule: rev_induct)
  case Nil
  show ?case by simp
next
  case (snoc e events)
  then have "audioNodesRef (run events initial_state) = no_nodes"
    and "\<forall>hw ok. e \<noteq> TogglePlayPause hw ok"
    by auto
  then show ?case by (simp add: step_none)
qed

text \<open>
  Claim C7. Without the audio element or without an audio context, \<^verbatim>\<open>saveAudio\<close>
  raises the alert to load a file first and does nothing else; that is the case as long
  as there has been no playback attempt, and the page offers none before a file is
  loaded. When the fetch is
  rejected, or the decoding, or the rendering, or anything else up to the rendered
  buffer, or the serialization of that buffer, it logs the error, raises one alert and
  returns the state it was called in. It never does anything but one of these two, or
  one download; and in every case the settings, the live graph, the audio element and
  the playback state are as before.
\<close>

theorem saveAudio_failure_modes:
  "(audioRef s = None \<or> audioContext (audioNodesRef s) = None \<longrightarrow>
      saveAudio p s = (s, [Alert ''Please load an audio file first''])) \<and>
   ((\<forall>hw ok. TogglePlayPause hw ok \<notin> set events) \<longrightarrow>
      saveAudio p (run events initial_state) =
        (run events initial_state, [Alert ''Please load an audio file first''])) \<and>
   (audioRef s = Some el \<and> audioContext (audioNodesRef s) = Some c \<and>
    (fetch p (src el) = None \<or>
     (\<forall>bytes. fetch p (src el) = Some bytes \<longrightarrow>
        decodeAudioData p (ctx_sampleRate c) bytes = None) \<or>
     (\<forall>oc. engine p oc = None) \<or>
     rendered_buffer p (eqSettings s) el c = None \<or>
     (\<forall>rendered. rendered_buffer p (eqSettings s) el c = Some rendered \<longrightarrow>
        audioBufferToCompressedAudio (max_byte_length p) rendered = None)) \<longrightarrow>
      saveAudio p s =
        (s, [ConsoleError ''Error saving audio:'',
             Alert ''Error saving audio. Please try again.''])) \<and>
   (saveAudio p s = (s, [Alert ''Please load an audio file first'']) \<or>
    saveAudio p s =
      (s, [ConsoleError ''Error saving audio:'',
           Alert ''Error saving audio. Please try again.'']) \<or>
    (\<exists>blob. snd (saveAudio p s) = [Download (''processed_'' @ currentFile s) blob])) \<and>
   eqSettings (fst (saveAudio p s)) = eqSettings s \<and>
   audioNodesRef (fst (saveAudio p s)) = audioNodesRef s \<and>
   audioRef (fst (saveAudio p s)) = audioRef s \<and>
   isPlaying (fst (saveAudio p s)) = isPlaying s \<and>
   bypass (fst (saveAudio p s)) = bypass s"
proof (intro conjI impI)
  assume "audioRef s = None \<or> audioContext (audioNodesRef s) = None"
  then show "saveAudio p s = (s, [Alert ''Please load an audio file first''])"
    by (rule saveAudio_guard)
next
  assume "\<forall>hw ok. TogglePlayPause hw ok \<notin> set events"
  then have "audioNodesRef (run events initial_state) = no_nodes"
    by (rule no_playback_no_nodes)
  then have "audioContext (audioNodesRef (run events initial_state)) = None"
    by (simp add: no_nodes_def)
  then show "saveAudio p (run events initial_state) =
      (run events initial_state, [Alert ''Please load an audio file first''])"
    by (simp add: saveAudio_guard)
next
  assume a: "audioRef s = Some el \<and> audioContext (audioNodesRef s) = Some c \<and>
    (fetch p (src el) = None \<or>
     (\<forall>bytes. fetch p (src el) = Some bytes \<longrightarrow>
        decodeAudioData p (ctx_sampleRate c) bytes = None) \<or>
     (\<forall>oc. engine p oc = None) \<or>
     rendered_buffer p (eqSettings s) el c = None \<or>
     (\<forall>rendered. rendered_buffer p (eqSettings s) el c = Some rendered \<longrightarrow>
        audioBufferToCompressedAudio (max_byte_length p) rendered = None))"
  then have "rendered_buffer p (eqSettings s) el c = None \<or>
     (\<forall>rendered. rendered_buffer p (eqSettings s) el c = Some rendered \<longrightarrow>
        audioBufferToCompressedAudio (max_byte_length p) rendered = None)"
    using rendered_buffer_stage_failures [where p = p and el = el and eq = "eqSettings s" and c = c]
    by blast
  then have "rendered_buffer p (eqSettings s) el c \<bind>
      audioBufferToCompressedAudio (max_byte_length p) = None"
    by (cases "rendered_buffer p (eqSettings s) el c") auto
  with a show "saveAudio p s =
        (s, [ConsoleError ''Error saving audio:'',
             Alert ''Error saving audio. Please try again.''])"
    by (intro saveAudio_caught [of s el c]) simp_all
next
  show "saveAudio p s = (s, [Alert ''Please load an audio file first'']) \<or>
    saveAudio p s =
      (s, [ConsoleError ''Error saving audio:'',
           Alert ''Error saving audio. Please try again.'']) \<or>
    (\<exists>blob. snd (saveAudio p s) = [Download (''processed_'' @ currentFile s) blob])"
    by (simp add: saveAudio_def createObjectURL_def Let_def split: option.splits)
qed simp_all

theorem saveAudio_failure_modes_witness:
  "saveAudio sample_platform initial_state =
     (initial_state, [Alert ''Please load an audio file first'']) \<and>
   saveAudio sample_platform (run [FileUpload None, ToggleBypass] initial_state) =
     (run [FileUpload None, ToggleBypass] initial_state,
      [Alert ''Please load an audio file first'']) \<and>
   saveAudio failing_platform
     (run [FileUpload (Some sample_file), TogglePlayPause (Some sample_hardware) True]
        initial_state) =
     (run [FileUpload (Some sample_file), TogglePlayPause (Some sample_hardware) True]
        initial_state,
      [ConsoleError ''Error saving audio:'', Alert ''Error saving audio. Please try again.''])"
proof -
  let ?s = "run [FileUpload (Some sample_file), TogglePlayPause (Some sample_hardware) True]
    initial_state"
  have "audioContext (audioNodesRef initial_state) = None"
    by (simp add: no_nodes_def)
  with saveAudio_failure_modes [where s = initial_state and p = sample_platform]
  have one: "saveAudio sample_platform initial_state =
     (initial_state, [Alert ''Please load an audio file first''])"
    by blast
  have "\<forall>hw ok. TogglePlayPause hw ok \<notin> set [FileUpload None, ToggleBypass]"
    by simp
  with saveAudio_failure_modes
    [where events = "[FileUpload None, ToggleBypass]" and p = sample_platform]
  have none: "saveAudio sample_platform (run [FileUpload None, ToggleBypass] initial_state) =
     (run [FileUpload None, ToggleBypass] initial_state,
      [Alert ''Please load an audio file first''])"
    by blast
  have "audioNodesRef ?s = live_nodes 44100 2 False 0 0 0 (full_chain 1 2 3 4 6 5)"
    using first_play [of "handleFileUpload (Some sample_file) initial_state" sample_hardware True]
    by (simp add: run_Cons sample_hardware_def)
  then have c: "audioContext (audioNodesRef ?s) = Some (the (audioContext (audioNodesRef ?s)))"
    by (simp add: live_nodes_def)
  have "audioRef ?s \<noteq> None"
    using wired_run [of "[FileUpload (Some sample_file),
      TogglePlayPause (Some sample_hardware) True]"] by (simp add: wired_def)
  then have el: "audioRef ?s = Some (the (audioRef ?s))"
    by simp
  have "fetch failing_platform (src (the (audioRef ?s))) = None"
    by (simp add: failing_platform_def)
  with saveAudio_failure_modes [where s = ?s and el = "the (audioRef ?s)"
      and c = "the (audioContext (audioNodesRef ?s))" and p = failing_platform] el c
  have "saveAudio failing_platform ?s =
     (?s, [ConsoleError ''Error saving audio:'', Alert ''Error saving audio. Please try again.''])"
    by blast
  with one none show ?thesis by blast
qed

section \<open>The offline context\<close>

lemma loaded:
  "handleFileUpload (Some sample_file) initial_state =
     initial_state
       \<lparr>isPlaying := False, currentFile := ''tone.mp3'',
        audioRef := Some \<lparr>src = Some 0, paused = True, duration = Fin 2, currentTime = 0\<rparr>,
        objectUrlRef := Some 0, next_url := 1, url_log := [CreateObjectURL 0]\<rparr>"
  by (simp add: handleFileUpload_def createObjectURL_def sample_file_def
      initial_state_def Let_def)





lemma update_node_dims [simp]:
  "oc_numberOfChannels (update_node i f oc) = oc_numberOfChannels oc"
  "oc_length (update_node i f oc) = oc_length oc"
  "oc_sampleRate (update_node i f oc) = oc_sampleRate oc"
  by (simp_all add: update_node_def)







lemma live_context_hardware [simp]:
  "ctx_sampleRate (the (audioContext (live_nodes r ch su gb gm gt es))) = r"
  "channelCount (the (audioContext (live_nodes r ch su gb gm gt es))) = ch"
  by (simp_all add: live_nodes_def)




section \<open>Gain updates and bypass at the states the component reaches\<close>

lemma topology_live [simp]: "topology (s\<lparr>audioNodesRef := live_nodes r ch su gb gm gt es\<rparr>) = es"
  by (simp add: topology_def live_nodes_def)

lemma filter_gain_live:
  "audioNodesRef s = live_nodes r ch su gb gm gt es \<Longrightarrow>
   filter_gain key s = Some (case key of KBass \<Rightarrow> gb | KMid \<Rightarrow> gm | KTreble \<Rightarrow> gt)"
  by (cases key) (simp_all add: filter_gain_def live_nodes_def)

text \<open>
  What does hold of a gain update: it sets the setting of its band and no other, and
  with the graph in place every live gain is the setting of its band afterwards.
\<close>

lemma gain_update_synchronizes:
  "setting key (eqSettings (step (UpdateEQ key v) s)) = v \<and>
   (key' \<noteq> key \<longrightarrow>
      setting key' (eqSettings (step (UpdateEQ key v) s)) = setting key' (eqSettings s)) \<and>
   (populated (audioNodesRef (run events initial_state)) \<longrightarrow>
      filter_gain key' (step (UpdateEQ key v) (run events initial_state)) =
        Some (setting key' (eqSettings (step (UpdateEQ key v) (run events initial_state)))))"
proof (intro conjI impI)
  have eq: "eqSettings (applyEQSettings t) = eqSettings t" for t
    by (simp add: applyEQSettings_def Let_def split: option.splits)
  show "setting key (eqSettings (step (UpdateEQ key v) s)) = v"
    by (cases key) (simp_all add: eq)
  show "setting key' (eqSettings (step (UpdateEQ key v) s)) = setting key' (eqSettings s)"
    if "key' \<noteq> key"
    using that by (cases key; cases key') (simp_all add: eq)
  let ?s = "run events initial_state"
  let ?t = "updateEQValue key [v] ?s"
  assume "populated (audioNodesRef ?s)"
  with wired_run [of events] obtain r ch su gb gm gt es
    where "audioNodesRef ?s = live_nodes r ch su gb gm gt es"
    by (cases rule: wired_cases) auto
  then have "audioNodesRef ?t = live_nodes r ch su gb gm gt es"
    by simp
  from applyEQSettings_live [OF this]
  have "audioNodesRef (applyEQSettings ?t) =
      live_nodes r ch su (bass (eqSettings ?t)) (mid (eqSettings ?t)) (treble (eqSettings ?t)) es"
    by simp
  from filter_gain_live [OF this, of key']
  show "filter_gain key' (step (UpdateEQ key v) ?s) =
      Some (setting key' (eqSettings (step (UpdateEQ key v) ?s)))"
    by (cases key') (simp_all add: eq)
qed

lemma tuned:
  "step (UpdateEQ KMid 5) (handleFileUpload (Some sample_file) initial_state) =
     (handleFileUpload (Some sample_file) initial_state)
       \<lparr>eqSettings := \<lparr>bass = 0, mid = 5, treble = 0\<rparr>\<rparr>"
  by (simp add: loaded)

lemma tuned_then_played:
  "run [FileUpload (Some sample_file), UpdateEQ KMid 5,
        TogglePlayPause (Some sample_hardware) True] initial_state =
     initial_state
       \<lparr>isPlaying := True, currentFile := ''tone.mp3'',
        eqSettings := \<lparr>bass = 0, mid = 5, treble = 0\<rparr>,
        audioRef := Some \<lparr>src = Some 0, paused = False, duration = Fin 2, currentTime = 0\<rparr>,
        objectUrlRef := Some 0,
        audioNodesRef := live_nodes 44100 2 False 0 0 0 (full_chain 1 2 3 4 6 5),
        next_url := 1, url_log := [CreateObjectURL 0]\<rparr>"
proof -
  let ?s = "(handleFileUpload (Some sample_file) initial_state)
       \<lparr>eqSettings := \<lparr>bass = 0, mid = 5, treble = 0\<rparr>\<rparr>"
  have "audioContext (audioNodesRef ?s) = None"
    by (simp add: no_nodes_def)
  from initializeAudioContext_builds [OF _ this, of _ sample_hardware]
  have "initializeAudioContext (Some sample_hardware) ?s =
      ?s\<lparr>audioNodesRef := live_nodes 44100 2 False 0 0 0 (full_chain 1 2 3 4 6 5)\<rparr>"
    by (simp add: loaded sample_hardware_def)
  then have "togglePlayPause (Some sample_hardware) True ?s =
     initial_state
       \<lparr>isPlaying := True, currentFile := ''tone.mp3'',
        eqSettings := \<lparr>bass = 0, mid = 5, treble = 0\<rparr>,
        audioRef := Some \<lparr>src = Some 0, paused = False, duration = Fin 2, currentTime = 0\<rparr>,
        objectUrlRef := Some 0,
        audioNodesRef := live_nodes 44100 2 False 0 0 0 (full_chain 1 2 3 4 6 5),
        next_url := 1, url_log := [CreateObjectURL 0]\<rparr>"
    unfolding togglePlayPause_def Let_def
    by (simp add: loaded resume_context_def live_nodes_def)
  then show ?thesis
    by (simp add: run_Cons tuned del: step.simps(5)) 
qed

text \<open>
  Claim C4 at a state the component reaches: the mid slider is moved to 5 before the
  first playback, playback creates the filters with gain 0, and the bass slider is then
  moved to 3. The update of bass changes the live gain of the mid filter from 0 to 5.
\<close>

theorem gain_update_changes_other_band:
  "eqSettings (run [FileUpload (Some sample_file), UpdateEQ KMid 5,
        TogglePlayPause (Some sample_hardware) True] initial_state) =
     \<lparr>bass = 0, mid = 5, treble = 0\<rparr> \<and>
   filter_gain KMid (run [FileUpload (Some sample_file), UpdateEQ KMid 5,
        TogglePlayPause (Some sample_hardware) True] initial_state) = Some 0 \<and>
   filter_gain KMid (step (UpdateEQ KBass 3)
     (run [FileUpload (Some sample_file), UpdateEQ KMid 5,
        TogglePlayPause (Some sample_hardware) True] initial_state)) = Some 5 \<and>
   filter_gain KBass (step (UpdateEQ KBass 3)
     (run [FileUpload (Some sample_file), UpdateEQ KMid 5,
        TogglePlayPause (Some sample_hardware) True] initial_state)) = Some 3"
proof -
  let ?s = "run [FileUpload (Some sample_file), UpdateEQ KMid 5,
        TogglePlayPause (Some sample_hardware) True] initial_state"
  have n: "audioNodesRef ?s = live_nodes 44100 2 False 0 0 0 (full_chain 1 2 3 4 6 5)"
    by (simp add: tuned_then_played)
  have eq: "eqSettings ?s = \<lparr>bass = 0, mid = 5, treble = 0\<rparr>"
    by (simp add: tuned_then_played)
  from n have "audioNodesRef (updateEQValue KBass [3] ?s) =
      live_nodes 44100 2 False 0 0 0 (full_chain 1 2 3 4 6 5)"
    by simp
  from applyEQSettings_live [OF this]
  have "audioNodesRef (step (UpdateEQ KBass 3) ?s) =
      live_nodes 44100 2 False 3 5 0 (full_chain 1 2 3 4 6 5)"
    by (simp add: eq)
  from filter_gain_live [OF this] filter_gain_live [OF n] eq show ?thesis
    by simp
qed


lemma topology_of_live:
  "audioNodesRef s = live_nodes r ch su gb gm gt es \<Longrightarrow> topology s = es"
  by (simp add: topology_def live_nodes_def)

lemma toggle_live:
  assumes "audioNodesRef s = live_nodes r ch su gb gm gt es"
    and "es = full_chain 1 2 3 4 6 5 \<or> es = bypass_path 1"
  shows "audioNodesRef (step ToggleBypass s) =
      live_nodes r ch su gb gm gt
        (if bypass s then full_chain 1 2 3 4 6 5 else bypass_path 1)"
    and "bypass (step ToggleBypass s) = (\<not> bypass s)"
proof -
  from assms have "audioNodesRef (s\<lparr>bypass := \<not> bypass s\<rparr>) = live_nodes r ch su gb gm gt es"
    and "es = [] \<or> es = full_chain 1 2 3 4 6 5 \<or> es = bypass_path 1"
    by simp_all
  from connectAudioGraph_live [OF this, of "\<not> bypass s"]
  show "audioNodesRef (step ToggleBypass s) =
      live_nodes r ch su gb gm gt
        (if bypass s then full_chain 1 2 3 4 6 5 else bypass_path 1)"
    by simp
  show "bypass (step ToggleBypass s) = (\<not> bypass s)"
    by simp
qed

text \<open>
  What does hold of the rewiring: in every state with the nodes in place,
  \<^verbatim>\<open>connectAudioGraph\<close> leaves exactly the bypass path if the flag it has captured is
  set and exactly the full chain if not, whatever was connected before; and pressing the
  bypass button twice gives back the connections of a state whose connections agree
  with its flag.
\<close>

lemma rewire_by_captured_flag:
  assumes "populated (audioNodesRef (run events initial_state))"
  shows "topology (connectAudioGraph b (run events initial_state)) =
     (if b then bypass_path (the (source (audioNodesRef (run events initial_state))))
      else full_chain (the (source (audioNodesRef (run events initial_state))))
        (the (bassFilter (audioNodesRef (run events initial_state))))
        (the (midFilter (audioNodesRef (run events initial_state))))
        (the (trebleFilter (audioNodesRef (run events initial_state))))
        (the (comp_node (audioNodesRef (run events initial_state))))
        (the (masterGain (audioNodesRef (run events initial_state)))))"
proof -
  let ?s = "run events initial_state"
  from wired_run [of events] assms obtain r ch su gb gm gt es
    where n: "audioNodesRef ?s = live_nodes r ch su gb gm gt es"
      and es: "es = full_chain 1 2 3 4 6 5 \<or> es = bypass_path 1"
    by (cases rule: wired_cases) auto
  from es have "es = [] \<or> es = full_chain 1 2 3 4 6 5 \<or> es = bypass_path 1" by simp
  from connectAudioGraph_live [OF n this, of b] show ?thesis
    by (simp add: n)
qed

lemma toggle_twice_from_consistent_state:
  assumes "populated (audioNodesRef (run events initial_state))"
    and "topology (run events initial_state) =
      (if bypass (run events initial_state) then bypass_path 1 else full_chain 1 2 3 4 6 5)"
  shows "topology (step ToggleBypass (step ToggleBypass (run events initial_state))) =
     topology (run events initial_state)"
proof -
  let ?s = "run events initial_state"
  from wired_run [of events] assms(1) obtain r ch su gb gm gt es
    where n: "audioNodesRef ?s = live_nodes r ch su gb gm gt es"
      and es: "es = full_chain 1 2 3 4 6 5 \<or> es = bypass_path 1"
    by (cases rule: wired_cases) auto
  note once = toggle_live [OF n es]
  have "(if bypass ?s then full_chain 1 2 3 4 6 5 else bypass_path 1) = full_chain 1 2 3 4 6 5 \<or>
      (if bypass ?s then full_chain 1 2 3 4 6 5 else bypass_path 1) = bypass_path (1 :: nat)"
    by simp
  note twice = toggle_live [OF once(1) this]
  from topology_of_live [OF twice(1)] once(2) assms(2) show ?thesis
    by simp
qed

lemma bypassed_then_played:
  "run [FileUpload (Some sample_file), ToggleBypass,
        TogglePlayPause (Some sample_hardware) True] initial_state =
     initial_state
       \<lparr>isPlaying := True, currentFile := ''tone.mp3'', bypass := True,
        audioRef := Some \<lparr>src = Some 0, paused = False, duration = Fin 2, currentTime = 0\<rparr>,
        objectUrlRef := Some 0,
        audioNodesRef := live_nodes 44100 2 False 0 0 0 (full_chain 1 2 3 4 6 5),
        next_url := 1, url_log := [CreateObjectURL 0]\<rparr>"
proof -
  let ?s = "(handleFileUpload (Some sample_file) initial_state)\<lparr>bypass := True\<rparr>"
  have pressed: "step ToggleBypass (handleFileUpload (Some sample_file) initial_state) = ?s"
    by (simp add: loaded)
  have "audioContext (audioNodesRef ?s) = None"
    by (simp add: no_nodes_def)
  from initializeAudioContext_builds [OF _ this, of _ sample_hardware]
  have "initializeAudioContext (Some sample_hardware) ?s =
      ?s\<lparr>audioNodesRef := live_nodes 44100 2 False 0 0 0 (full_chain 1 2 3 4 6 5)\<rparr>"
    by (simp add: loaded sample_hardware_def)
  then have "togglePlayPause (Some sample_hardware) True ?s =
     initial_state
       \<lparr>isPlaying := True, currentFile := ''tone.mp3'', bypass := True,
        audioRef := Some \<lparr>src = Some 0, paused = False, duration = Fin 2, currentTime = 0\<rparr>,
        objectUrlRef := Some 0,
        audioNodesRef := live_nodes 44100 2 False 0 0 0 (full_chain 1 2 3 4 6 5),
        next_url := 1, url_log := [CreateObjectURL 0]\<rparr>"
    unfolding togglePlayPause_def Let_def
    by (simp add: loaded resume_context_def live_nodes_def)
  then show ?thesis
    by (simp add: run_Cons pressed del: step.simps(4))
qed

text \<open>
  Claim C5 at a state the component reaches: the bypass button is pressed before the
  first playback. The playback attempt builds the nodes and runs the
  \<^verbatim>\<open>connectAudioGraph\<close> of the first render, which has captured \<^verbatim>\<open>bypass = false\<close>:
  the flag is set and the graph is the full chain.
\<close>

theorem bypass_flag_ignored_at_creation:
  "bypass (run [FileUpload (Some sample_file), ToggleBypass,
        TogglePlayPause (Some sample_hardware) True] initial_state) \<and>
   populated (audioNodesRef (run [FileUpload (Some sample_file), ToggleBypass,
        TogglePlayPause (Some sample_hardware) True] initial_state)) \<and>
   topology (run [FileUpload (Some sample_file), ToggleBypass,
        TogglePlayPause (Some sample_hardware) True] initial_state) =
     [(1, 2), (2, 3), (3, 4), (4, 6), (6, 5), (5, 0)] \<and>
   topology (run [FileUpload (Some sample_file), ToggleBypass,
        TogglePlayPause (Some sample_hardware) True] initial_state) \<noteq> bypass_path 1"
  by (simp add: bypassed_then_played topology_def full_chain_def bypass_path_def
      destination_def populated_def live_nodes_def)

text \<open>
  Claim C6 from the same state: the first press of the button clears the flag and
  connects the full chain again, the second sets it and connects the bypass path, which
  is not what was connected before the two presses.
\<close>

theorem double_toggle_changes_topology:
  "topology (run [FileUpload (Some sample_file), ToggleBypass,
        TogglePlayPause (Some sample_hardware) True] initial_state) =
     [(1, 2), (2, 3), (3, 4), (4, 6), (6, 5), (5, 0)] \<and>
   topology (run [FileUpload (Some sample_file), ToggleBypass,
        TogglePlayPause (Some sample_hardware) True, ToggleBypass] initial_state) =
     [(1, 2), (2, 3), (3, 4), (4, 6), (6, 5), (5, 0)] \<and>
   topology (run [FileUpload (Some sample_file), ToggleBypass,
        TogglePlayPause (Some sample_hardware) True, ToggleBypass, ToggleBypass]
        initial_state) = [(1, 0)]"
proof -
  let ?s = "run [FileUpload (Some sample_file), ToggleBypass,
        TogglePlayPause (Some sample_hardware) True] initial_state"
  have n: "audioNodesRef ?s = live_nodes 44100 2 False 0 0 0 (full_chain 1 2 3 4 6 5)"
    and flag: "bypass ?s"
    by (simp_all add: bypassed_then_played)
  note once = toggle_live [OF n disjI1 [OF refl]]
  have "(if bypass ?s then full_chain 1 2 3 4 6 5 else bypass_path 1) = full_chain 1 2 3 4 6 5 \<or>
      (if bypass ?s then full_chain 1 2 3 4 6 5 else bypass_path 1) = bypass_path (1 :: nat)"
    by simp
  note twice = toggle_live [OF once(1) this]
  have "run [FileUpload (Some sample_file), ToggleBypass,
        TogglePlayPause (Some sample_hardware) True, ToggleBypass] initial_state =
      step ToggleBypass ?s"
    and "run [FileUpload (Some sample_file), ToggleBypass,
        TogglePlayPause (Some sample_hardware) True, ToggleBypass, ToggleBypass] initial_state =
      step ToggleBypass (step ToggleBypass ?s)"
    by (simp_all add: run_def)
  with topology_of_live [OF n] topology_of_live [OF once(1)] topology_of_live [OF twice(1)]
    flag once(2)
  show ?thesis
    by (simp add: full_chain_def bypass_path_def destination_def del: step.simps)
qed

end
